theory Spec2Isabelle
  imports Main
begin

section \<open>Values and type expressions\<close>

text \<open>
  The module \<^verbatim>\<open>atools/_cli.py\<close> builds an \<^verbatim>\<open>argparse\<close> command line from the
  signature of a decorated function. Its coercion engine \<^verbatim>\<open>_Decorator._set_t\<close>
  matches on the triple \<^verbatim>\<open>type(value), typing.get_origin(t) or t, typing.get_args(t)\<close>.

  An annotation is kept the way \<^verbatim>\<open>typing\<close> decomposes it: an origin (the class, or the
  annotation itself when it has no origin) and the tuple of its type arguments.
  \<^verbatim>\<open>list[int]\<close> is \<open>Ty TList [Ty TInt []]\<close>, the bare class \<^verbatim>\<open>tuple\<close> is \<open>Ty TTuple []\<close>,
  and so is \<^verbatim>\<open>tuple[()]\<close>, whose \<^verbatim>\<open>get_args\<close> is empty; \<^verbatim>\<open>tuple[int, ...]\<close> is
  \<open>Ty TTuple [Ty TInt [], Ty TEllipsis []]\<close>. \<open>TNoneType\<close> stands for both \<^verbatim>\<open>None\<close> and
  \<^verbatim>\<open>types.NoneType\<close>, \<open>TUnion\<close> for both \<^verbatim>\<open>types.UnionType\<close> and \<^verbatim>\<open>typing.Union\<close>,
  \<open>TEmpty\<close> for \<^verbatim>\<open>inspect.Parameter.empty\<close> (a parameter without annotation) and
  \<open>TCustom c\<close> for any other class \<open>c\<close>.

  Values are the Python literals that \<^verbatim>\<open>ast.literal_eval\<close> produces, frozensets, and
  objects of other classes. A set is kept as the list of its elements in iteration
  order (without repetition), a dict as the list of its items in insertion order. A
  float is only passed around by the engine, never computed with; it is kept as a
  mantissa and a binary exponent.
\<close>

datatype error = RuntimeError | TypeError | IndexError | KeyError | ValueError | ArgumentError

datatype pyfloat = Float int int

datatype origin =
    TBool | TFloat | TInt | TStr | TNoneType | TUnion
  | TDict | TFrozenset | TList | TSet | TTuple
  | TEllipsis | TEmpty | TCustom string

datatype ty = Ty origin "ty list"

datatype val =
    VBool bool | VFloat pyfloat | VInt int | VStr string | VNone
  | VDict "(val \<times> val) list" | VFrozenset "val list" | VList "val list"
  | VSet "val list" | VTuple "val list" | VObj string val

text \<open>\<^verbatim>\<open>type(value)\<close>.\<close>

fun type_of :: "val \<Rightarrow> origin" where
  "type_of (VBool _) = TBool"
| "type_of (VFloat _) = TFloat"
| "type_of (VInt _) = TInt"
| "type_of (VStr _) = TStr"
| "type_of VNone = TNoneType"
| "type_of (VDict _) = TDict"
| "type_of (VFrozenset _) = TFrozenset"
| "type_of (VList _) = TList"
| "type_of (VSet _) = TSet"
| "type_of (VTuple _) = TTuple"
| "type_of (VObj c _) = TCustom c"

text \<open>The class attributes \<^verbatim>\<open>_container_types\<close>, \<^verbatim>\<open>_primitive_types\<close> and \<^verbatim>\<open>_types\<close>.\<close>

definition container_types :: "origin list" where
  "container_types = [TDict, TFrozenset, TList, TSet, TTuple]"
definition primitive_types :: "origin list" where
  "primitive_types = [TBool, TFloat, TInt, TStr]"
definition types :: "origin list" where
  "types = container_types @ primitive_types"

text \<open>
  The call \<^verbatim>\<open>T(value)\<close> of the custom-type case. The constructors of the program's own
  classes are a parameter \<open>ctor\<close>; the other origins that reach the call
  (\<^verbatim>\<open>NoneType\<close>, a union, \<^verbatim>\<open>Ellipsis\<close>, \<^verbatim>\<open>inspect.Parameter.empty\<close>) cannot be called
  with one argument and raise \<^verbatim>\<open>TypeError\<close>.
\<close>

fun call_type :: "(string \<Rightarrow> val \<Rightarrow> error + val) \<Rightarrow> origin \<Rightarrow> val \<Rightarrow> error + val" where
  "call_type ctor (TCustom c) v = ctor c v"
| "call_type ctor _ v = Inl TypeError"

text \<open>
  Building a new set and a new dict, one insertion at a time. Elements and keys are
  taken to be hashable, and two of them are the same when they are the same value:
  that Python identifies equal numbers of different types (\<^verbatim>\<open>1\<close>, \<^verbatim>\<open>1.0\<close> and \<^verbatim>\<open>True\<close>) is
  not modelled.
\<close>

fun set_add :: "val \<Rightarrow> val list \<Rightarrow> val list" where
  "set_add x xs = (if x \<in> set xs then xs else xs @ [x])"

fun dict_setitem :: "val \<Rightarrow> val \<Rightarrow> (val \<times> val) list \<Rightarrow> (val \<times> val) list" where
  "dict_setitem k v [] = [(k, v)]"
| "dict_setitem k v ((k', v') # kvs) =
     (if k = k' then (k', v) # kvs else (k', v') # dict_setitem k v kvs)"


fun elems :: "val \<Rightarrow> val list" where
  "elems (VFrozenset xs) = xs"
| "elems (VList xs) = xs"
| "elems (VSet xs) = xs"
| "elems (VTuple xs) = xs"
| "elems _ = []"

fun items :: "val \<Rightarrow> (val \<times> val) list" where
  "items (VDict kvs) = kvs"
| "items _ = []"

definition new_set :: "val list \<Rightarrow> val list" where
  "new_set ys = foldl (\<lambda>s y. set_add y s) [] ys"

definition new_dict :: "(val \<times> val) list \<Rightarrow> (val \<times> val) list" where
  "new_dict kvs = foldl (\<lambda>d (k, x). dict_setitem k x d) [] kvs"

text \<open>The elements of a container are smaller than the container.\<close>

lemma size_elems: "size_list size (elems v) \<le> size v"
  by (cases v) auto

lemma size_items: "size_list (size_prod size size) (items v) \<le> size v"
  by (cases v) auto

lemma size_elems_Cons:
  "elems v = x # xs \<Longrightarrow> size x < size v \<and> size (VTuple xs) < size v"
  by (cases v) auto

section \<open>The coercion engine\<close>

text \<open>
  \<^verbatim>\<open>_set_t\<close>, one branch for each \<^verbatim>\<open>case\<close> of the \<^verbatim>\<open>match\<close> statement, in the order of
  the source. \<open>set_t_each\<close> is the comprehension \<^verbatim>\<open>[cls._set_t(x, A) for x in value]\<close>
  and \<open>set_t_items\<close> the dict comprehension over \<^verbatim>\<open>value.items()\<close>; an exception raised
  for an element leaves the comprehension. In the fixed-arity tuple case \<^verbatim>\<open>value[0]\<close>
  raises \<^verbatim>\<open>IndexError\<close> on the empty tuple, and \<^verbatim>\<open>tuple[*As]\<close> is the tuple type of the
  remaining arguments.
\<close>

function set_t :: "(string \<Rightarrow> val \<Rightarrow> error + val) \<Rightarrow> val \<Rightarrow> ty \<Rightarrow> error + val"
and set_t_each :: "(string \<Rightarrow> val \<Rightarrow> error + val) \<Rightarrow> val list \<Rightarrow> ty \<Rightarrow> error + val list"
and set_t_items :: "(string \<Rightarrow> val \<Rightarrow> error + val) \<Rightarrow> (val \<times> val) list \<Rightarrow> ty \<Rightarrow> ty
                      \<Rightarrow> error + (val \<times> val) list"
where
  "set_t ctor v (Ty T As) =
    (if type_of v = TBool \<and> T = TBool \<and> As = [] then Inr v
     else if type_of v = TFloat \<and> T = TFloat \<and> As = [] then Inr v
     else if type_of v = TInt \<and> T = TInt \<and> As = [] then Inr v
     else if type_of v = TStr \<and> T = TStr \<and> As = [] then Inr v
     else if type_of v = TNoneType \<and> T = TNoneType \<and> As = [] then Inr v
     else if T = TUnion \<and> Ty (type_of v) [] \<in> set As then Inr v
     else if type_of v = TDict \<and> T = TDict \<and> length As = 2 then
       (case set_t_items ctor (items v) (As ! 0) (As ! 1) of
          Inl e \<Rightarrow> Inl e
        | Inr kvs \<Rightarrow> Inr (VDict (new_dict kvs)))
     else if type_of v = TSet \<and> T = TFrozenset \<and> length As = 1 then
       (case set_t_each ctor (elems v) (As ! 0) of
          Inl e \<Rightarrow> Inl e
        | Inr ys \<Rightarrow> Inr (VFrozenset (new_set ys)))
     else if type_of v = TList \<and> T = TList \<and> length As = 1 then
       (case set_t_each ctor (elems v) (As ! 0) of
          Inl e \<Rightarrow> Inl e
        | Inr ys \<Rightarrow> Inr (VList ys))
     else if type_of v = TSet \<and> T = TSet \<and> length As = 1 then
       (case set_t_each ctor (elems v) (As ! 0) of
          Inl e \<Rightarrow> Inl e
        | Inr ys \<Rightarrow> Inr (VSet (new_set ys)))
     else if type_of v = TTuple \<and> T = TTuple \<and> length As = 2 \<and> As ! 1 = Ty TEllipsis [] then
       (case set_t_each ctor (elems v) (As ! 0) of
          Inl e \<Rightarrow> Inl e
        | Inr ys \<Rightarrow> Inr (VTuple ys))
     else if type_of v = TTuple \<and> T = TTuple \<and> As \<noteq> [] then
       (case elems v of
          [] \<Rightarrow> Inl IndexError
        | x # xs \<Rightarrow>
           (case set_t ctor x (hd As) of
              Inl e \<Rightarrow> Inl e
            | Inr y \<Rightarrow>
               (case set_t ctor (VTuple xs) (Ty TTuple (tl As)) of
                  Inl e \<Rightarrow> Inl e
                | Inr r \<Rightarrow> Inr (VTuple (y # elems r)))))
     else if type_of v = TTuple \<and> T = TTuple \<and> As = [] then Inr (VTuple [])
     else if type_of v \<in> set types \<and> T \<notin> set types then call_type ctor T v
     else Inl RuntimeError)"
| "set_t_each ctor [] A = Inr []"
| "set_t_each ctor (x # xs) A =
     (case set_t ctor x A of
        Inl e \<Rightarrow> Inl e
      | Inr y \<Rightarrow> (case set_t_each ctor xs A of Inl e \<Rightarrow> Inl e | Inr ys \<Rightarrow> Inr (y # ys)))"
| "set_t_items ctor [] A0 A1 = Inr []"
| "set_t_items ctor ((k, x) # kvs) A0 A1 =
     (case set_t ctor k A0 of
        Inl e \<Rightarrow> Inl e
      | Inr k' \<Rightarrow>
         (case set_t ctor x A1 of
            Inl e \<Rightarrow> Inl e
          | Inr x' \<Rightarrow>
             (case set_t_items ctor kvs A0 A1 of
                Inl e \<Rightarrow> Inl e
              | Inr kvs' \<Rightarrow> Inr ((k', x') # kvs'))))"
  by pat_completeness auto


termination
proof (relation "measure (\<lambda>a. case a of
          Inl (ctor, v, t) \<Rightarrow> 2 * size v + 1
        | Inr (Inl (ctor, vs, t)) \<Rightarrow> 2 * size_list size vs
        | Inr (Inr (ctor, kvs, t0, t1)) \<Rightarrow> 2 * size_list (size_prod size size) kvs)",
       goal_cases)
  case 1
  show ?case by simp
next
  case (2 ctor v T As)
  show ?case using size_items [of v] by simp
next
  case (3 ctor v T As)
  show ?case using size_elems [of v] by simp
next
  case (4 ctor v T As)
  show ?case using size_elems [of v] by simp
next
  case (5 ctor v T As)
  show ?case using size_elems [of v] by simp
next
  case (6 ctor v T As)
  show ?case using size_elems [of v] by simp
next
  case (7 ctor v T As x xs)
  then show ?case using size_elems_Cons [of v x xs] by simp
next
  case (8 ctor v T As x xs y)
  then show ?case using size_elems_Cons [of v x xs] by simp
qed simp_all


declare set_t.simps [simp del]

lemmas types_defs = types_def container_types_def primitive_types_def

section \<open>Well-typed values\<close>

text \<open>
  \<open>conforms v t\<close>: the value \<open>v\<close> structurally conforms to the type \<open>t\<close>, for the nested
  combinations of list, dict, set, frozenset and tuple (fixed arity and variadic) over
  the primitives bool, int, float and str. \<open>frozen_free t\<close>: no frozenset occurs in \<open>t\<close>.
  \<open>no_ctor\<close> is a program without classes of its own.
\<close>

definition no_ctor :: "string \<Rightarrow> val \<Rightarrow> error + val" where
  "no_ctor c v = Inl TypeError"

fun frozen_free :: "ty \<Rightarrow> bool" where
  "frozen_free (Ty T As) = (T \<noteq> TFrozenset \<and> list_all frozen_free As)"

fun conforms :: "val \<Rightarrow> ty \<Rightarrow> bool" where
  "conforms (VBool b) t = (t = Ty TBool [])"
| "conforms (VFloat f) t = (t = Ty TFloat [])"
| "conforms (VInt i) t = (t = Ty TInt [])"
| "conforms (VStr s) t = (t = Ty TStr [])"
| "conforms VNone t = False"
| "conforms (VObj c x) t = False"
| "conforms (VList xs) t =
     (case t of Ty T As \<Rightarrow>
        T = TList \<and> length As = 1 \<and> list_all (\<lambda>x. conforms x (As ! 0)) xs)"
| "conforms (VSet xs) t =
     (case t of Ty T As \<Rightarrow>
        T = TSet \<and> length As = 1 \<and> distinct xs \<and> list_all (\<lambda>x. conforms x (As ! 0)) xs)"
| "conforms (VFrozenset xs) t =
     (case t of Ty T As \<Rightarrow>
        T = TFrozenset \<and> length As = 1 \<and> distinct xs
          \<and> list_all (\<lambda>x. conforms x (As ! 0)) xs)"
| "conforms (VDict kvs) t =
     (case t of Ty T As \<Rightarrow>
        T = TDict \<and> length As = 2 \<and> distinct (map fst kvs)
          \<and> list_all (\<lambda>kx. conforms (fst kx) (As ! 0) \<and> conforms (snd kx) (As ! 1)) kvs)"
| "conforms (VTuple xs) t =
     (case t of Ty T As \<Rightarrow>
        T = TTuple \<and>
        (if length As = 2 \<and> As ! 1 = Ty TEllipsis []
         then list_all (\<lambda>x. conforms x (As ! 0)) xs
         else list_all2 conforms xs As))"


section \<open>Signatures and the argument parser\<close>

text \<open>
  What \<^verbatim>\<open>inspect.signature\<close> gives for a parameter: its name, its kind, its default
  (\<open>None\<close> for \<^verbatim>\<open>inspect.Parameter.empty\<close>) and its annotation. \<open>Annotated t m\<close> is
  \<^verbatim>\<open>typing.Annotated[t, m]\<close> with a string \<open>m\<close> as first metadata.
\<close>

datatype kind =
  POSITIONAL_ONLY | POSITIONAL_OR_KEYWORD | VAR_POSITIONAL | KEYWORD_ONLY | VAR_KEYWORD

datatype annotation = Plain ty | Annotated ty string

datatype parameter =
  Parameter (pname: string) (pkind: kind) (pdefault: "val option") (pannotation: annotation)

text \<open>
  A function object: the module it is defined in, \<^verbatim>\<open>__name__\<close>, \<^verbatim>\<open>__doc__\<close>, its
  signature, and whether \<^verbatim>\<open>inspect.iscoroutinefunction\<close> holds for it. The entrypoint
  registered on a parser is such a function or the bound method \<^verbatim>\<open>print_help\<close> of a
  parser.
\<close>

datatype func =
  Func (fmodule: string) (fname: string) (fdoc: "string option")
       (fparams: "parameter list") (fcoroutine: bool)

datatype entry = EFunc func | EPrintHelp nat

text \<open>
  The part of an \<^verbatim>\<open>argparse\<close> parser that the decorator sets up. An action has its
  option strings (none for a positional argument), \<^verbatim>\<open>dest\<close>, \<^verbatim>\<open>nargs\<close> (\<^verbatim>\<open>None\<close> or
  \<^verbatim>\<open>'?'\<close>), \<^verbatim>\<open>required\<close>, \<^verbatim>\<open>default\<close>, \<^verbatim>\<open>help\<close> and \<^verbatim>\<open>type\<close>; \<open>arg_type\<close> holds the
  annotation \<open>t\<close> that the converter installed by \<^verbatim>\<open>_set_parameter\<close> closes over. A
  parser has its description, the \<^verbatim>\<open>entrypoint\<close> entry of its defaults, the actions
  added by \<^verbatim>\<open>add_argument\<close> in order, and its subcommands once \<^verbatim>\<open>add_subparsers\<close> was
  called. The \<^verbatim>\<open>-h/--help\<close> action that every parser has is not listed among the
  actions; \<open>add_argument\<close> knows its two option strings. A subcommand has its name,
  the \<^verbatim>\<open>help\<close> keyword of \<^verbatim>\<open>add_parser\<close> when it was given (a subcommand without it is
  left out of the listing of subcommands) and its parser. Parsers are mutable objects
  shared by reference: they live in a heap and are named by their index.
\<close>

datatype nsval = NVal val | NEntry entry

datatype nargs = NargsNone | NargsOptional

record action =
  option_strings :: "string list"
  dest :: string
  nargs :: nargs
  required :: bool
  default_value :: nsval
  help_text :: "string option"
  arg_type :: "ty option"

datatype choice = Choice (cname: string) (chelp: "string option option") (cparser: nat)

record parser =
  description :: "string option"
  defaults_entrypoint :: "entry option"
  actions :: "action list"
  subparsers :: "choice list option"

type_synonym heap = "parser list"

text \<open>\<^verbatim>\<open>argparse.ArgumentParser(description=d)\<close>: a new parser.\<close>

definition ArgumentParser :: "string option \<Rightarrow> heap \<Rightarrow> nat \<times> heap" where
  "ArgumentParser d h =
     (length h, h @ [\<lparr>description = d, defaults_entrypoint = None, actions = [],
                      subparsers = None\<rparr>])"

text \<open>
  \<^verbatim>\<open>parser.set_defaults(entrypoint=e)\<close>; it also becomes the default of an action whose
  \<^verbatim>\<open>dest\<close> is \<^verbatim>\<open>entrypoint\<close>.
\<close>

definition set_defaults :: "nat \<Rightarrow> entry \<Rightarrow> heap \<Rightarrow> heap" where
  "set_defaults p e h =
     h[p := (h ! p)\<lparr>defaults_entrypoint := Some e,
                    actions := map (\<lambda>a. if dest a = ''entrypoint''
                                         then a\<lparr>default_value := NEntry e\<rparr> else a)
                                   (actions (h ! p))\<rparr>]"

definition help_option_strings :: "string list" where
  "help_option_strings = [''-h'', ''--help'']"

text \<open>\<^verbatim>\<open>s.replace(old, new)\<close> for single characters, and \<^verbatim>\<open>sep.join(parts)\<close>.\<close>

definition replace_char :: "char \<Rightarrow> char \<Rightarrow> string \<Rightarrow> string" where
  "replace_char old new s = map (\<lambda>c. if c = old then new else c) s"

fun join :: "string \<Rightarrow> string list \<Rightarrow> string" where
  "join sep [] = []"
| "join sep [x] = x"
| "join sep (x # y # ys) = x @ sep @ join sep (y # ys)"

text \<open>
  \<^verbatim>\<open>parser.add_argument(s)\<close> with one name or flag and no keyword: the action it creates.
  A string that does not start with \<^verbatim>\<open>-\<close> is a positional argument, required, with
  \<^verbatim>\<open>dest\<close> the string itself. Otherwise it is an option whose \<^verbatim>\<open>dest\<close> is the option
  string without its leading hyphens and with the other hyphens turned into
  underscores (\<^verbatim>\<open>ValueError\<close> when nothing is left); an option string that the parser
  already has is a conflict (\<^verbatim>\<open>ArgumentError\<close>). The default is the parser-level default
  of \<^verbatim>\<open>dest\<close> when there is one, else \<^verbatim>\<open>None\<close>.
\<close>

definition parser_default :: "parser \<Rightarrow> string \<Rightarrow> nsval" where
  "parser_default p d =
     (case defaults_entrypoint p of
        Some e \<Rightarrow> if d = ''entrypoint'' then NEntry e else NVal VNone
      | None \<Rightarrow> NVal VNone)"

definition add_argument :: "parser \<Rightarrow> string \<Rightarrow> error + action" where
  "add_argument p s =
     (if s = [] then Inl IndexError
      else if hd s \<noteq> CHR ''-'' then
        Inr \<lparr>option_strings = [], dest = s, nargs = NargsNone, required = True,
             default_value = parser_default p s, help_text = None, arg_type = None\<rparr>
      else
        let d = dropWhile (\<lambda>c. c = CHR ''-'') s in
        if d = [] then Inl ValueError
        else if s \<in> set help_option_strings \<union> set (concat (map option_strings (actions p)))
        then Inl ArgumentError
        else
          Inr \<lparr>option_strings = [s], dest = replace_char CHR ''-'' CHR ''_'' d,
               nargs = NargsNone, required = False,
               default_value = parser_default p (replace_char CHR ''-'' CHR ''_'' d),
               help_text = None, arg_type = None\<rparr>)"

text \<open>
  \<^verbatim>\<open>_Decorator._set_parameter\<close> on the parser \<open>p\<close> of the heap. The \<^verbatim>\<open>match\<close> on the kind
  adds the argument or raises \<^verbatim>\<open>RuntimeError\<close>; then the new action \<open>flag\<close> gets
  \<^verbatim>\<open>required\<close>, or \<^verbatim>\<open>default\<close> and \<^verbatim>\<open>nargs\<close>, its help text and its converter. \<open>fmt\<close> is
  the formatting of the default inside the f-string \<^verbatim>\<open>f'Default: {parameter.default}'\<close>.
\<close>

definition set_parameter ::
  "(val \<Rightarrow> string) \<Rightarrow> nat \<Rightarrow> parameter \<Rightarrow> heap \<Rightarrow> error + heap" where
  "set_parameter fmt p parameter h =
     (case (case pkind parameter of
              POSITIONAL_ONLY \<Rightarrow> add_argument (h ! p) (pname parameter)
            | POSITIONAL_OR_KEYWORD \<Rightarrow>
                if pdefault parameter = None then add_argument (h ! p) (pname parameter)
                else add_argument (h ! p)
                       (''--'' @ replace_char CHR ''_'' CHR ''-'' (pname parameter))
            | KEYWORD_ONLY \<Rightarrow>
                add_argument (h ! p) (''--'' @ replace_char CHR ''_'' CHR ''-'' (pname parameter))
            | _ \<Rightarrow> Inl RuntimeError) of
        Inl e \<Rightarrow> Inl e
      | Inr flag \<Rightarrow>
          let (t, help_parts) = (case pannotation parameter of
                                   Annotated t' m \<Rightarrow> (t', [m])
                                 | Plain t' \<Rightarrow> (t', []));
              (flag, help_parts) = (case pdefault parameter of
                  None \<Rightarrow> (flag\<lparr>required := True\<rparr>, help_parts)
                | Some d \<Rightarrow> (flag\<lparr>default_value := NVal d, nargs := NargsOptional\<rparr>,
                             help_parts @ [''Default: '' @ fmt d]));
              flag = flag\<lparr>help_text := Some (join '' '' help_parts), arg_type := Some t\<rparr>
          in Inr (h[p := (h ! p)\<lparr>actions := actions (h ! p) @ [flag]\<rparr>]))"

text \<open>
  The converter that \<^verbatim>\<open>_set_parameter\<close> installs as \<^verbatim>\<open>flag.type\<close>, for the annotation
  \<open>t\<close> kept in \<open>arg_type\<close>: a raw value is taken verbatim when \<open>t\<close> is \<^verbatim>\<open>str\<close> and goes
  through \<^verbatim>\<open>ast.literal_eval\<close> otherwise, which is a parameter here; the result is
  coerced to \<open>t\<close>.
\<close>

definition convert ::
  "(string \<Rightarrow> val \<Rightarrow> error + val) \<Rightarrow> (string \<Rightarrow> error + val) \<Rightarrow> ty \<Rightarrow> string \<Rightarrow> error + val"
  where
  "convert ctor literal_eval t value =
     (if t = Ty TStr [] then set_t ctor (VStr value) t
      else case literal_eval value of
             Inl e \<Rightarrow> Inl e
           | Inr v \<Rightarrow> set_t ctor v t)"

text \<open>
  \<^verbatim>\<open>_Decorator._set_entrypoint\<close>: the entrypoint becomes the parser's default, then
  every parameter of its signature is set up in declaration order. An exception leaves
  the loop; the heap is returned as it is at that moment.
\<close>

fun set_parameters ::
  "(val \<Rightarrow> string) \<Rightarrow> nat \<Rightarrow> parameter list \<Rightarrow> heap \<Rightarrow> error option \<times> heap" where
  "set_parameters fmt p [] h = (None, h)"
| "set_parameters fmt p (x # xs) h =
     (case set_parameter fmt p x h of
        Inl e \<Rightarrow> (Some e, h)
      | Inr h' \<Rightarrow> set_parameters fmt p xs h')"

definition set_entrypoint ::
  "(val \<Rightarrow> string) \<Rightarrow> nat \<Rightarrow> func \<Rightarrow> heap \<Rightarrow> error option \<times> heap" where
  "set_entrypoint fmt p entrypoint h =
     set_parameters fmt p (fparams entrypoint) (set_defaults p (EFunc entrypoint) h)"

section \<open>The decorator\<close>

text \<open>
  A module: \<^verbatim>\<open>__name__\<close>, \<^verbatim>\<open>__package__\<close>, \<^verbatim>\<open>__doc__\<close>, the functions it defines by name
  (what \<^verbatim>\<open>getattr(module, name, None)\<close> finds) and, for a package, the modules that
  \<^verbatim>\<open>pkgutil.iter_modules(module.__path__)\<close> lists, each with its short name and as
  \<^verbatim>\<open>importlib.import_module\<close> loads it.
\<close>

datatype module =
  Module (mname: string) (mpackage: string) (mdoc: "string option")
         (mattrs: "(string \<times> func) list") (msubmodules: "(string \<times> module) list")

text \<open>\<^verbatim>\<open>a or b\<close> on two documentation strings: \<^verbatim>\<open>None\<close> and the empty string are false.\<close>

definition py_or :: "string option \<Rightarrow> string option \<Rightarrow> string option" where
  "py_or a b = (case a of None \<Rightarrow> b | Some s \<Rightarrow> if s = [] then b else Some s)"

text \<open>
  \<^verbatim>\<open>parser.add_subparsers(...)\<close>, and \<^verbatim>\<open>subparsers.add_parser(name, help=..., description=...)\<close>
  on the subcommands of the parser \<open>p\<close>, which creates the parser of the subcommand.
\<close>

definition add_subparsers :: "nat \<Rightarrow> heap \<Rightarrow> heap" where
  "add_subparsers p h = h[p := (h ! p)\<lparr>subparsers := Some []\<rparr>]"

definition add_parser ::
  "nat \<Rightarrow> string \<Rightarrow> string option option \<Rightarrow> string option \<Rightarrow> heap \<Rightarrow> nat \<times> heap" where
  "add_parser p name hlp d h =
     (let (q, h') = ArgumentParser d h
      in (q, h'[p := (h' ! p)\<lparr>subparsers :=
                  Some ((case subparsers (h' ! p) of None \<Rightarrow> [] | Some cs \<Rightarrow> cs) @ [Choice name hlp q])\<rparr>]))"

text \<open>
  The \<^verbatim>\<open>for\<close> loop of \<^verbatim>\<open>__call__\<close> over the submodules of a package: each gets a
  subcommand (without \<^verbatim>\<open>help\<close> when its name starts with an underscore) whose parser
  prints its help by default, and is pushed on the stack with the function of the
  submodule that has the name of the decorated function, if any. The top of the stack
  is the head of the list.
\<close>

type_synonym stack = "(nat \<times> module \<times> func option) list"

fun add_submodules ::
  "string \<Rightarrow> nat \<Rightarrow> (string \<times> module) list \<Rightarrow> stack \<Rightarrow> heap \<Rightarrow> stack \<times> heap" where
  "add_submodules dn p [] stack h = (stack, h)"
| "add_submodules dn p ((name, sub_module) # rest) stack h =
     (let (sub_parser, h1) =
            (if name \<noteq> [] \<and> hd name = CHR ''_''
             then add_parser p name None (mdoc sub_module) h
             else add_parser p name (Some (Some [])) (mdoc sub_module) h);
          h2 = set_defaults sub_parser (EPrintHelp sub_parser) h1;
          sub_entrypoint = map_of (mattrs sub_module) dn
      in add_submodules dn p rest ((sub_parser, sub_module, sub_entrypoint) # stack) h2)"

text \<open>
  The first half of the body of the \<^verbatim>\<open>while\<close> loop, for the triple popped from the
  stack: the subcommands of a package when \<open>submodules\<close> is set, and the subcommand \<^verbatim>\<open>.\<close>
  for the entrypoint of the package itself. It gives the parser that the entrypoint is
  then set on, the new stack and the new heap.
\<close>

definition visit ::
  "bool \<Rightarrow> string \<Rightarrow> nat \<Rightarrow> module \<Rightarrow> func option \<Rightarrow> stack \<Rightarrow> heap \<Rightarrow> nat \<times> stack \<times> heap" where
  "visit submodules dn p module entrypoint stack h =
     (if submodules \<and> mname module = mpackage module then
        let h1 = add_subparsers p h;
            (stack1, h2) = add_submodules dn p (msubmodules module) stack h1
        in (case entrypoint of
              None \<Rightarrow> (p, stack1, h2)
            | Some e \<Rightarrow>
                let (q, h3) = add_parser p ''.'' (Some (py_or (fdoc e) (mdoc module))) None h2
                in (q, stack1, h3))
      else (p, stack, h))"

text \<open>The stack holds fewer modules, counted with their submodules, after each visit.\<close>

definition weight :: "stack \<Rightarrow> nat" where
  "weight stack = sum_list (map (\<lambda>(p, m, e). Suc (size m)) stack)"

lemma weight_Cons: "weight ((p, m, e) # stack) = Suc (size m) + weight stack"
  by (simp add: weight_def)

lemma weight_add_submodules:
  "add_submodules dn p subs stack h = (stack', h') \<Longrightarrow>
   weight stack' = weight stack + sum_list (map (\<lambda>(n, m). Suc (size m)) subs)"
proof (induction subs arbitrary: stack h)
  case Nil
  then show ?case by simp
next
  case (Cons a subs)
  obtain name sm where a: "a = (name, sm)" by (cases a)
  from Cons.prems a show ?case
    by (auto simp: Let_def weight_Cons split: prod.splits if_splits dest!: Cons.IH)
qed

lemma size_submodules:
  "sum_list (map (\<lambda>(n, m). Suc (size m)) (msubmodules m)) \<le> size m"
proof -
  have "sum_list (map (\<lambda>(n, m). Suc (size m)) subs)
        \<le> size_list (size_prod (\<lambda>_. 0) size) subs" for subs :: "(string \<times> module) list"
    by (induction subs) auto
  then show ?thesis by (cases m) (simp add: le_SucI trans_le_add2)
qed

lemma weight_visit:
  "visit sub dn p m e stack h = (p', stack', h') \<Longrightarrow> weight stack' < weight ((p, m, e) # stack)"
  using size_submodules [of m]
  by (auto simp: visit_def Let_def weight_Cons split: if_splits prod.splits option.splits
           dest!: weight_add_submodules)

text \<open>
  The \<^verbatim>\<open>while stack:\<close> loop. An exception of \<^verbatim>\<open>_set_entrypoint\<close> ends it; the heap is
  returned as it is then.
\<close>

function call_loop ::
  "(val \<Rightarrow> string) \<Rightarrow> bool \<Rightarrow> string \<Rightarrow> stack \<Rightarrow> heap \<Rightarrow> error option \<times> heap" where
  "call_loop fmt submodules dn [] h = (None, h)"
| "call_loop fmt submodules dn ((p, module, entrypoint) # stack) h =
     (case visit submodules dn p module entrypoint stack h of
        (p', stack', h') \<Rightarrow>
          (case entrypoint of
             None \<Rightarrow> call_loop fmt submodules dn stack' h'
           | Some e \<Rightarrow>
               (case set_entrypoint fmt p' e h' of
                  (Some err, h'') \<Rightarrow> (Some err, h'')
                | (None, h'') \<Rightarrow> call_loop fmt submodules dn stack' h'')))"
  by pat_completeness auto
termination
  by (relation "measure (\<lambda>(fmt, sub, dn, stack, h). weight stack)")
     (auto dest: weight_visit [OF sym])

text \<open>
  \<^verbatim>\<open>_Decorator.__call__\<close>. The state holds the parsers and, for every function object,
  the parser of its \<^verbatim>\<open>cli\<close> attribute, if it has one. The result is the exception
  raised or the function returned.
\<close>

record state =
  parsers :: heap
  cli :: "func \<Rightarrow> nat option"

definition call ::
  "(val \<Rightarrow> string) \<Rightarrow> bool \<Rightarrow> module \<Rightarrow> func \<Rightarrow> state \<Rightarrow> (error + func) \<times> state" where
  "call fmt submodules module entrypoint s =
     (let (parser, h1) = ArgumentParser (py_or (fdoc entrypoint) (mdoc module)) (parsers s);
          h2 = set_defaults parser (EPrintHelp parser) h1;
          s1 = s\<lparr>parsers := h2, cli := (cli s)(entrypoint \<mapsto> parser)\<rparr>;
          decorated = entrypoint
      in case call_loop fmt submodules (fname decorated)
                [(parser, module, Some entrypoint)] h2 of
           (Some err, h3) \<Rightarrow> (Inl err, s1\<lparr>parsers := h3\<rparr>)
         | (None, h3) \<Rightarrow> (Inr decorated, s1\<lparr>parsers := h3\<rparr>))"


text \<open>
  The documentation of the nodes of the command tree, as the loop sets it: the node
  \<open>p\<close> built for the module \<open>m\<close> with the entrypoint \<open>e\<close> has, when \<open>m\<close> is a package and
  \<open>submodules\<close> is set, one subcommand for each submodule, in order and with its name,
  whose parser has the documentation of the submodule as its description and is
  documented in the same way; then, if \<open>e\<close> is a function, the subcommand \<^verbatim>\<open>.\<close> whose help
  is the documentation of \<open>e\<close> or else of \<open>m\<close>, and whose parser has no description.
\<close>

fun described :: "bool \<Rightarrow> string \<Rightarrow> heap \<Rightarrow> nat \<Rightarrow> module \<Rightarrow> func option \<Rightarrow> bool" where
  "described submodules dn h p (Module n pk d attrs subs) e =
     (if submodules \<and> n = pk then
        (case subparsers (h ! p) of
           None \<Rightarrow> False
         | Some cs \<Rightarrow>
             list_all2
               (\<lambda>x c. cname c = fst x \<and> description (h ! cparser c) = mdoc (snd x)
                      \<and> described submodules dn h (cparser c) (snd x)
                           (map_of (mattrs (snd x)) dn))
               subs (take (length subs) cs)
             \<and> (case e of
                  None \<Rightarrow> drop (length subs) cs = []
                | Some g \<Rightarrow>
                    (case drop (length subs) cs of
                       [c] \<Rightarrow> cname c = ''.'' \<and> chelp c = Some (py_or (fdoc g) d)
                               \<and> description (h ! cparser c) = None
                     | _ \<Rightarrow> False)))
      else True)"

section \<open>Running the command line\<close>

text \<open>
  \<^verbatim>\<open>inspect.signature(entrypoint).parameters\<close>. The bound method \<^verbatim>\<open>parser.print_help\<close> of
  \<^verbatim>\<open>argparse\<close> is declared \<^verbatim>\<open>def print_help(self, file=None)\<close>.
\<close>

fun signature :: "entry \<Rightarrow> parameter list" where
  "signature (EFunc f) = fparams f"
| "signature (EPrintHelp p) =
     [Parameter ''file'' POSITIONAL_OR_KEYWORD (Some VNone) (Plain (Ty TEmpty []))]"

fun iscoroutinefunction :: "entry \<Rightarrow> bool" where
  "iscoroutinefunction (EFunc f) = fcoroutine f"
| "iscoroutinefunction (EPrintHelp p) = False"

text \<open>
  The \<^verbatim>\<open>for\<close> loop of \<^verbatim>\<open>run\<close> over the parameters: \<^verbatim>\<open>parsed_args[parameter.name]\<close> raises
  \<^verbatim>\<open>KeyError\<close> when the name is not a key; the value goes to \<^verbatim>\<open>args\<close> for a
  positional-only parameter and to \<^verbatim>\<open>kwargs\<close> otherwise.
\<close>

type_synonym namespace = "(string \<times> nsval) list"

fun collect ::
  "namespace \<Rightarrow> parameter list \<Rightarrow> nsval list \<Rightarrow> (string \<times> nsval) list
     \<Rightarrow> error + nsval list \<times> (string \<times> nsval) list" where
  "collect parsed_args [] args kwargs = Inr (args, kwargs)"
| "collect parsed_args (parameter # rest) args kwargs =
     (case map_of parsed_args (pname parameter) of
        None \<Rightarrow> Inl KeyError
      | Some v \<Rightarrow>
          if pkind parameter = POSITIONAL_ONLY
          then collect parsed_args rest (args @ [v]) kwargs
          else collect parsed_args rest args (kwargs @ [(pname parameter, v)]))"

text \<open>
  \<^verbatim>\<open>run\<close> after \<^verbatim>\<open>parse_args\<close>, on the dict \<open>parsed_args\<close> of the namespace. The call
  \<^verbatim>\<open>entrypoint(*args, **kwargs)\<close> is recorded, and its outcome is given by \<open>invoke\<close>;
  \<open>asyncio_run\<close> is \<^verbatim>\<open>asyncio.run\<close>. The result is the list of the calls made and the
  exception raised or the value returned. Calling a value that is not callable raises
  \<^verbatim>\<open>TypeError\<close> in \<^verbatim>\<open>inspect.signature\<close>.
\<close>

datatype call_record = Call entry "nsval list" "(string \<times> nsval) list"

definition dispatch ::
  "(call_record \<Rightarrow> error + val) \<Rightarrow> (val \<Rightarrow> error + val) \<Rightarrow> namespace
     \<Rightarrow> call_record list \<times> (error + val)" where
  "dispatch invoke asyncio_run parsed_args =
     (case map_of parsed_args ''entrypoint'' of
        None \<Rightarrow> ([], Inl KeyError)
      | Some (NVal v) \<Rightarrow> ([], Inl TypeError)
      | Some (NEntry entrypoint) \<Rightarrow>
          (case collect parsed_args (signature entrypoint) [] [] of
             Inl e \<Rightarrow> ([], Inl e)
           | Inr (args, kwargs) \<Rightarrow>
               ([Call entrypoint args kwargs],
                case invoke (Call entrypoint args kwargs) of
                  Inl e \<Rightarrow> Inl e
                | Inr result \<Rightarrow>
                    if iscoroutinefunction entrypoint then asyncio_run result
                    else Inr result)))"

text \<open>
  \<^verbatim>\<open>_Decoration.run\<close>. \<open>parse_args\<close> is \<^verbatim>\<open>argparse\<close>'s parsing of the arguments by the
  parser \<open>p\<close>, which gives the namespace or raises; \<open>argv\<close> is \<^verbatim>\<open>sys.argv\<close>, and \<open>None\<close>
  for \<open>args\<close> is the default \<^verbatim>\<open>...\<close>.
\<close>

definition run ::
  "(heap \<Rightarrow> nat \<Rightarrow> string list \<Rightarrow> error + namespace)
     \<Rightarrow> (call_record \<Rightarrow> error + val) \<Rightarrow> (val \<Rightarrow> error + val)
     \<Rightarrow> string list \<Rightarrow> heap \<Rightarrow> nat \<Rightarrow> string list option
     \<Rightarrow> call_record list \<times> (error + val)" where
  "run parse_args invoke asyncio_run argv h p args =
     (let args = (case args of None \<Rightarrow> drop 1 argv | Some a \<Rightarrow> a)
      in case parse_args h p args of
           Inl e \<Rightarrow> ([], Inl e)
         | Inr parsed_args \<Rightarrow> dispatch invoke asyncio_run parsed_args)"

text \<open>
  The namespace that \<^verbatim>\<open>parse_known_args\<close> starts from, and that \<^verbatim>\<open>parse_args([])\<close>
  returns for a parser without required argument: the default of every action, then
  the defaults of the parser.
\<close>

definition initial_namespace :: "heap \<Rightarrow> nat \<Rightarrow> namespace" where
  "initial_namespace h p =
     map (\<lambda>a. (dest a, default_value a)) (actions (h ! p))
     @ (case defaults_entrypoint (h ! p) of
          None \<Rightarrow> []
        | Some e \<Rightarrow> [(''entrypoint'', NEntry e)])"

section \<open>Example programs\<close>

text \<open>
  \<^verbatim>\<open>def f(a, /, b, c=1, *, d, e=2.0)\<close>, without annotations, and
  \<^verbatim>\<open>def entrypoint(a: int, /, b: str, c: bool = True, *, d: float)\<close>, both in a module
  \<^verbatim>\<open>foo\<close> that is not a package.
\<close>

definition f_example :: func where
  "f_example = Func ''foo'' ''f'' None
     [Parameter ''a'' POSITIONAL_ONLY None (Plain (Ty TEmpty [])),
      Parameter ''b'' POSITIONAL_OR_KEYWORD None (Plain (Ty TEmpty [])),
      Parameter ''c'' POSITIONAL_OR_KEYWORD (Some (VInt 1)) (Plain (Ty TEmpty [])),
      Parameter ''d'' KEYWORD_ONLY None (Plain (Ty TEmpty [])),
      Parameter ''e'' KEYWORD_ONLY (Some (VFloat (Float 1 1))) (Plain (Ty TEmpty []))]
     False"

definition entrypoint_example :: func where
  "entrypoint_example = Func ''foo'' ''entrypoint'' None
     [Parameter ''a'' POSITIONAL_ONLY None (Plain (Ty TInt [])),
      Parameter ''b'' POSITIONAL_OR_KEYWORD None (Plain (Ty TStr [])),
      Parameter ''c'' POSITIONAL_OR_KEYWORD (Some (VBool True)) (Plain (Ty TBool [])),
      Parameter ''d'' KEYWORD_ONLY None (Plain (Ty TFloat []))]
     False"

definition foo_module :: module where
  "foo_module = Module ''foo'' '''' None
     [(''f'', f_example), (''entrypoint'', entrypoint_example)] []"

text \<open>\<^verbatim>\<open>def g(a: int, *args)\<close> in a module \<^verbatim>\<open>bar\<close>.\<close>

definition variadic_example :: func where
  "variadic_example = Func ''bar'' ''g'' None
     [Parameter ''a'' POSITIONAL_OR_KEYWORD None (Plain (Ty TInt [])),
      Parameter ''args'' VAR_POSITIONAL None (Plain (Ty TEmpty []))]
     False"

definition bar_module :: module where
  "bar_module = Module ''bar'' '''' None [(''g'', variadic_example)] []"

text \<open>
  A package \<^verbatim>\<open>prog\<close> whose \<^verbatim>\<open>__init__.py\<close> defines the decorated \<^verbatim>\<open>entrypoint()\<close>, with
  a submodule \<^verbatim>\<open>prog.foo\<close> that has the documentation \<^verbatim>\<open>M\<close> and defines an
  \<^verbatim>\<open>entrypoint()\<close> with the documentation \<^verbatim>\<open>E\<close>.
\<close>

definition prog_entrypoint :: func where
  "prog_entrypoint = Func ''prog'' ''entrypoint'' None [] False"

definition prog_foo_entrypoint :: func where
  "prog_foo_entrypoint = Func ''prog.foo'' ''entrypoint'' (Some ''E'') [] False"

definition prog_package :: module where
  "prog_package = Module ''prog'' ''prog'' (Some ''P'') [(''entrypoint'', prog_entrypoint)]
     [(''foo'', Module ''prog.foo'' ''prog'' (Some ''M'')
                 [(''entrypoint'', prog_foo_entrypoint)] [])]"

definition empty_state :: state where
  "empty_state = \<lparr>parsers = [], cli = Map.empty\<rparr>"

text \<open>
  The formatting of \<^verbatim>\<open>str\<close> on the defaults that the examples use: a one-digit
  integer, a boolean, a string or \<^verbatim>\<open>None\<close>. No other value is formatted in them (the
  text is left empty there).
\<close>

definition str_example :: "val \<Rightarrow> string" where
  "str_example v =
     (case v of
        VInt i \<Rightarrow> (if 0 \<le> i \<and> i < 10 then [''0123456789'' ! nat i] else [])
      | VBool b \<Rightarrow> (if b then ''True'' else ''False'')
      | VStr s \<Rightarrow> s
      | VNone \<Rightarrow> ''None''
      | _ \<Rightarrow> [])"

section \<open>Coercion of well-typed values\<close>

lemma set_add_fresh: "x \<notin> set xs \<Longrightarrow> set_add x xs = xs @ [x]"
  by simp

lemma foldl_set_add: "distinct (acc @ ys) \<Longrightarrow> foldl (\<lambda>s y. set_add y s) acc ys = acc @ ys"
proof (induction ys arbitrary: acc)
  case Nil
  then show ?case by simp
next
  case (Cons y ys)
  from Cons.prems have fresh: "y \<notin> set acc" and d: "distinct ((acc @ [y]) @ ys)"
    by auto
  from Cons.IH [OF d] fresh show ?case by simp
qed

lemma new_set_distinct: "distinct ys \<Longrightarrow> new_set ys = ys"
  using foldl_set_add [of "[]" ys] by (simp add: new_set_def)

lemma dict_setitem_fresh: "k \<notin> fst ` set d \<Longrightarrow> dict_setitem k x d = d @ [(k, x)]"
  by (induction d) auto

lemma foldl_dict_setitem:
  "distinct (map fst (acc @ kvs)) \<Longrightarrow>
   foldl (\<lambda>d (k, x). dict_setitem k x d) acc kvs = acc @ kvs"
proof (induction kvs arbitrary: acc)
  case Nil
  then show ?case by simp
next
  case (Cons kx kvs)
  obtain k x where kx: "kx = (k, x)" by (cases kx)
  from Cons.prems kx have fresh: "k \<notin> fst ` set acc"
    and d: "distinct (map fst ((acc @ [(k, x)]) @ kvs))"
    by auto
  from Cons.IH [OF d] fresh kx show ?case by (simp add: dict_setitem_fresh)
qed

lemma new_dict_distinct: "distinct (map fst kvs) \<Longrightarrow> new_dict kvs = kvs"
  using foldl_dict_setitem [of "[]" kvs] by (simp add: new_dict_def)

lemma set_t_each_id:
  "(\<And>x. x \<in> set xs \<Longrightarrow> set_t ctor x A = Inr x) \<Longrightarrow> set_t_each ctor xs A = Inr xs"
  by (induction xs) simp_all

lemma set_t_items_id:
  "(\<And>k x. (k, x) \<in> set kvs \<Longrightarrow> set_t ctor k A0 = Inr k \<and> set_t ctor x A1 = Inr x)
   \<Longrightarrow> set_t_items ctor kvs A0 A1 = Inr kvs"
proof (induction kvs)
  case Nil
  then show ?case by simp
next
  case (Cons kx kvs)
  obtain k x where kx: "kx = (k, x)" by (cases kx)
  have "set_t ctor k A0 = Inr k \<and> set_t ctor x A1 = Inr x"
    using Cons.prems [of k x] kx by simp
  moreover have "set_t_items ctor kvs A0 A1 = Inr kvs"
  proof (rule Cons.IH)
    fix k' x' assume "(k', x') \<in> set kvs"
    then show "set_t ctor k' A0 = Inr k' \<and> set_t ctor x' A1 = Inr x'"
      using Cons.prems [of k' x'] by simp
  qed
  ultimately show ?case using kx by simp
qed

lemma set_t_fixed_tuple_id:
  "list_all2 (\<lambda>x A. set_t ctor x A = Inr x \<and> A \<noteq> Ty TEllipsis []) xs As \<Longrightarrow>
   set_t ctor (VTuple xs) (Ty TTuple As) = Inr (VTuple xs)"
proof (induction xs As rule: list_all2_induct)
  case Nil
  show ?case by (simp add: set_t.simps)
next
  case (Cons x xs A As)
  have notvar: "\<not> (length (A # As) = 2 \<and> (A # As) ! 1 = Ty TEllipsis [])"
  proof
    assume h: "length (A # As) = 2 \<and> (A # As) ! 1 = Ty TEllipsis []"
    then obtain B where As: "As = [B]" by (cases As) auto
    with h have "B = Ty TEllipsis []" by simp
    with Cons.hyps(2) As show False by (auto simp: list_all2_Cons2)
  qed
  show ?case
    using Cons.hyps(1) Cons.IH notvar
    by (subst set_t.simps) auto
qed


lemma conforms_Ellipsis: "\<not> conforms v (Ty TEllipsis [])"
  by (cases v) auto

lemma set_t_conforms_id:
  "conforms v t \<Longrightarrow> frozen_free t \<Longrightarrow> set_t ctor v t = Inr v"
proof (induction v arbitrary: t)
  case (VList xs)
  then obtain A where t: "t = Ty TList [A]" and all: "list_all (\<lambda>x. conforms x A) xs"
    by (cases t) (auto simp: length_Suc_conv)
  from VList.prems(2) t have ff: "frozen_free A" by simp
  have "set_t_each ctor xs A = Inr xs"
    by (rule set_t_each_id) (use VList.IH all ff in \<open>auto simp: list_all_iff\<close>)
  then show ?case by (simp add: t set_t.simps)
next
  case (VSet xs)
  then obtain A where t: "t = Ty TSet [A]" and d: "distinct xs"
    and all: "list_all (\<lambda>x. conforms x A) xs"
    by (cases t) (auto simp: length_Suc_conv)
  from VSet.prems(2) t have ff: "frozen_free A" by simp
  have "set_t_each ctor xs A = Inr xs"
    by (rule set_t_each_id) (use VSet.IH all ff in \<open>auto simp: list_all_iff\<close>)
  then show ?case using d by (simp add: t set_t.simps new_set_distinct)
next
  case (VFrozenset xs)
  then show ?case by (cases t) auto
next
  case (VDict kvs)
  then obtain A0 A1 where t: "t = Ty TDict [A0, A1]" and d: "distinct (map fst kvs)"
    and all: "list_all (\<lambda>kx. conforms (fst kx) A0 \<and> conforms (snd kx) A1) kvs"
    by (cases t) (auto simp: length_Suc_conv numeral_2_eq_2)
  from VDict.prems(2) t have ff: "frozen_free A0" "frozen_free A1" by simp_all
  have "set_t_items ctor kvs A0 A1 = Inr kvs"
  proof (rule set_t_items_id)
    fix k x assume kx: "(k, x) \<in> set kvs"
    with all have c: "conforms k A0" "conforms x A1" by (auto simp: list_all_iff)
    from kx have "k \<in> Basic_BNFs.fsts (k, x)" "x \<in> Basic_BNFs.snds (k, x)"
      by (simp_all add: fsts.intros snds.intros)
    with kx c ff VDict.IH show "set_t ctor k A0 = Inr k \<and> set_t ctor x A1 = Inr x"
      by blast
  qed
  then show ?case using d by (simp add: t set_t.simps new_dict_distinct)
next
  case (VTuple xs)
  then obtain As where t: "t = Ty TTuple As" by (cases t) auto
  show ?case
  proof (cases "length As = 2 \<and> As ! 1 = Ty TEllipsis []")
    case True
    then obtain A where As: "As = [A, Ty TEllipsis []]"
      by (auto simp: length_Suc_conv numeral_2_eq_2)
    from VTuple.prems t As have all: "list_all (\<lambda>x. conforms x A) xs" and ff: "frozen_free A"
      by simp_all
    have "set_t_each ctor xs A = Inr xs"
      by (rule set_t_each_id) (use VTuple.IH all ff in \<open>auto simp: list_all_iff\<close>)
    then show ?thesis by (simp add: t As set_t.simps)
  next
    case False
    with VTuple.prems t have all2: "list_all2 conforms xs As" by simp
    from VTuple.prems(2) t have ffs: "list_all frozen_free As" by simp
    have "list_all2 (\<lambda>x A. set_t ctor x A = Inr x \<and> A \<noteq> Ty TEllipsis []) xs As"
    proof (rule list.rel_mono_strong [OF all2])
      fix x A assume "x \<in> set xs" "A \<in> set As" "conforms x A"
      with VTuple.IH ffs show "set_t ctor x A = Inr x \<and> A \<noteq> Ty TEllipsis []"
        using conforms_Ellipsis by (auto simp: list_all_iff)
    qed
    then show ?thesis unfolding t by (rule set_t_fixed_tuple_id)
  qed
qed (auto simp: set_t.simps)

text \<open>
  C1, as the code has it: every value that structurally conforms to a type built from
  list, dict, set and tuple over bool, int, float and str, at any depth (so also up to
  depth 4) and without frozenset, is returned unchanged by \<open>set_t\<close>; a frozenset value
  against a \<^verbatim>\<open>frozenset[T]\<close> target is rejected with \<^verbatim>\<open>RuntimeError\<close>.
\<close>

theorem set_t_roundtrip:
  "(conforms v t \<and> frozen_free t \<longrightarrow> set_t ctor v t = Inr v)
   \<and> set_t ctor (VFrozenset xs) (Ty TFrozenset As) = Inl RuntimeError"
proof
  show "conforms v t \<and> frozen_free t \<longrightarrow> set_t ctor v t = Inr v"
    using set_t_conforms_id by blast
next
  show "set_t ctor (VFrozenset xs) (Ty TFrozenset As) = Inl RuntimeError"
    by (simp add: set_t.simps types_defs)
qed

theorem set_t_roundtrip_witness:
  "conforms (VDict [(VStr ''k'', VList [VTuple [VInt 1, VSet [VBool True, VBool False]]])])
     (Ty TDict [Ty TStr [], Ty TList [Ty TTuple [Ty TInt [], Ty TSet [Ty TBool []]]]])
   \<and> frozen_free (Ty TDict [Ty TStr [], Ty TList [Ty TTuple [Ty TInt [], Ty TSet [Ty TBool []]]]])
   \<and> set_t no_ctor
       (VDict [(VStr ''k'', VList [VTuple [VInt 1, VSet [VBool True, VBool False]]])])
       (Ty TDict [Ty TStr [], Ty TList [Ty TTuple [Ty TInt [], Ty TSet [Ty TBool []]]]])
     = Inr (VDict [(VStr ''k'', VList [VTuple [VInt 1, VSet [VBool True, VBool False]]])])"
proof -
  have c: "conforms (VDict [(VStr ''k'', VList [VTuple [VInt 1, VSet [VBool True, VBool False]]])])
     (Ty TDict [Ty TStr [], Ty TList [Ty TTuple [Ty TInt [], Ty TSet [Ty TBool []]]]])"
    by simp
  have f: "frozen_free
     (Ty TDict [Ty TStr [], Ty TList [Ty TTuple [Ty TInt [], Ty TSet [Ty TBool []]]]])"
    by simp
  from c f set_t_roundtrip
    [of "VDict [(VStr ''k'', VList [VTuple [VInt 1, VSet [VBool True, VBool False]]])]"
        "Ty TDict [Ty TStr [], Ty TList [Ty TTuple [Ty TInt [], Ty TSet [Ty TBool []]]]]"
        no_ctor]
  show ?thesis by blast
qed

text \<open>
  C1 as stated fails on a frozenset: the value \<^verbatim>\<open>frozenset({1})\<close> conforms to
  \<^verbatim>\<open>frozenset[int]\<close>, and \<open>set_t\<close> raises \<^verbatim>\<open>RuntimeError\<close> instead of returning it (the
  frozenset case of the \<^verbatim>\<open>match\<close> accepts a value of type \<^verbatim>\<open>set\<close> only).
\<close>

theorem set_t_frozenset_counterexample:
  "conforms (VFrozenset [VInt 1]) (Ty TFrozenset [Ty TInt []])
   \<and> set_t no_ctor (VFrozenset [VInt 1]) (Ty TFrozenset [Ty TInt []]) = Inl RuntimeError
   \<and> set_t no_ctor (VFrozenset [VInt 1]) (Ty TFrozenset [Ty TInt []]) \<noteq> Inr (VFrozenset [VInt 1])"
  by (simp add: set_t.simps types_defs)

section \<open>Tuples\<close>

text \<open>
  C4 at the input \<^verbatim>\<open>_set_t((1, 2), tuple[int])\<close>: the value is longer than the arity of
  the target, and \<open>set_t\<close> returns \<^verbatim>\<open>(1,)\<close> instead of failing.
\<close>

theorem set_t_fixed_tuple_longer_value:
  "set_t ctor (VTuple [VInt 1, VInt 2]) (Ty TTuple [Ty TInt []]) = Inr (VTuple [VInt 1])"
  by (simp add: set_t.simps)

text \<open>
  C9: against the bare annotation \<^verbatim>\<open>tuple\<close> (no type arguments) every tuple value is
  coerced to the empty tuple; its elements are dropped, not rejected.
\<close>

theorem set_t_bare_tuple:
  "set_t ctor (VTuple xs) (Ty TTuple []) = Inr (VTuple [])"
  by (simp add: set_t.simps)

text \<open>
  A value shorter than the arity of the target does fail: \<^verbatim>\<open>value[0]\<close> raises
  \<^verbatim>\<open>IndexError\<close> on the empty remainder.
\<close>

lemma set_t_fixed_tuple_shorter_value:
  "set_t ctor (VTuple [VInt 1]) (Ty TTuple [Ty TInt [], Ty TInt []]) = Inl IndexError"
  by (simp add: set_t.simps)

section \<open>The generated command line\<close>

lemmas builder_defs =
  ArgumentParser_def set_defaults_def py_or_def visit_def add_subparsers_def add_parser_def
  set_entrypoint_def set_parameter_def add_argument_def parser_default_def replace_char_def
  help_option_strings_def

text \<open>A parameter of type \<^verbatim>\<open>str\<close> gets the raw value as it is.\<close>

lemma convert_str: "convert ctor literal_eval (Ty TStr []) s = Inr (VStr s)"
  by (simp add: convert_def set_t.simps)

text \<open>
  Where the literal has the declared primitive type, the converter gives its value;
  so \<^verbatim>\<open>1\<close> for an \<^verbatim>\<open>int\<close> parameter and \<^verbatim>\<open>False\<close> for a \<^verbatim>\<open>bool\<close> parameter.
\<close>

lemma convert_literal:
  "literal_eval s = Inr v \<Longrightarrow> type_of v = T \<Longrightarrow> T \<in> set primitive_types \<Longrightarrow> T \<noteq> TStr \<Longrightarrow>
   convert ctor literal_eval (Ty T []) s = Inr v"
  by (auto simp: convert_def set_t.simps primitive_types_def)

text \<open>What \<^verbatim>\<open>_set_parameter\<close> adds to the parser.\<close>

lemma set_parameter_flag:
  assumes "set_parameter fmt p x h = Inr h'" and "p < length h"
  shows "\<exists>flag. h' = h[p := (h ! p)\<lparr>actions := actions (h ! p) @ [flag]\<rparr>]
           \<and> (pkind x = KEYWORD_ONLY \<or> pkind x = POSITIONAL_OR_KEYWORD \<and> pdefault x \<noteq> None
                \<longrightarrow> option_strings flag = [''--'' @ replace_char CHR ''_'' CHR ''-'' (pname x)])
           \<and> help_text flag =
               Some ((case pannotation x of Plain t \<Rightarrow> [] | Annotated t m \<Rightarrow>
                        (case pdefault x of None \<Rightarrow> m | Some d \<Rightarrow> m @ '' ''))
                     @ (case pdefault x of None \<Rightarrow> [] | Some d \<Rightarrow> ''Default: '' @ fmt d))"
  using assms
  by (auto simp: set_parameter_def add_argument_def Let_def
           split: kind.splits if_splits sum.splits annotation.splits option.splits)

text \<open>
  C3: for \<^verbatim>\<open>f(a, /, b, c=1, *, d, e=2.0)\<close> the parser gets exactly two required positional
  arguments \<^verbatim>\<open>a\<close> and \<^verbatim>\<open>b\<close>, the optional flag \<^verbatim>\<open>--c\<close> with default 1, the required flag
  \<^verbatim>\<open>--d\<close> and the optional flag \<^verbatim>\<open>--e\<close> with default 2.0. Every parameter with a default
  gets the help text \<^verbatim>\<open>Default: <value>\<close>, after the metadata of an annotated type, and
  the name of a flag is the name of the parameter with hyphens for underscores.
\<close>

theorem kind_surface_mapping:
  "set_entrypoint fmt 0 f_example (snd (ArgumentParser None [])) =
     (None,
      [\<lparr>description = None, defaults_entrypoint = Some (EFunc f_example),
        actions =
          [\<lparr>option_strings = [], dest = ''a'', nargs = NargsNone, required = True,
            default_value = NVal VNone, help_text = Some [], arg_type = Some (Ty TEmpty [])\<rparr>,
           \<lparr>option_strings = [], dest = ''b'', nargs = NargsNone, required = True,
            default_value = NVal VNone, help_text = Some [], arg_type = Some (Ty TEmpty [])\<rparr>,
           \<lparr>option_strings = [''--c''], dest = ''c'', nargs = NargsOptional, required = False,
            default_value = NVal (VInt 1), help_text = Some (''Default: '' @ fmt (VInt 1)),
            arg_type = Some (Ty TEmpty [])\<rparr>,
           \<lparr>option_strings = [''--d''], dest = ''d'', nargs = NargsNone, required = True,
            default_value = NVal VNone, help_text = Some [], arg_type = Some (Ty TEmpty [])\<rparr>,
           \<lparr>option_strings = [''--e''], dest = ''e'', nargs = NargsOptional, required = False,
            default_value = NVal (VFloat (Float 1 1)),
            help_text = Some (''Default: '' @ fmt (VFloat (Float 1 1))),
            arg_type = Some (Ty TEmpty [])\<rparr>],
        subparsers = None\<rparr>])
   \<and> (p < length h \<and> set_parameter fmt p x h = Inr h' \<and> pdefault x = Some d \<longrightarrow>
        help_text (last (actions (h' ! p))) =
          Some ((case pannotation x of Plain t \<Rightarrow> [] | Annotated t m \<Rightarrow> m @ '' '')
                @ ''Default: '' @ fmt d))
   \<and> (p < length h \<and> set_parameter fmt p x h = Inr h'
        \<and> (pkind x = KEYWORD_ONLY \<or> pkind x = POSITIONAL_OR_KEYWORD \<and> pdefault x \<noteq> None)
        \<longrightarrow>
        option_strings (last (actions (h' ! p))) =
          [''--'' @ replace_char CHR ''_'' CHR ''-'' (pname x)])"
proof (intro conjI impI)
  show "set_entrypoint fmt 0 f_example (snd (ArgumentParser None [])) =
     (None,
      [\<lparr>description = None, defaults_entrypoint = Some (EFunc f_example),
        actions =
          [\<lparr>option_strings = [], dest = ''a'', nargs = NargsNone, required = True,
            default_value = NVal VNone, help_text = Some [], arg_type = Some (Ty TEmpty [])\<rparr>,
           \<lparr>option_strings = [], dest = ''b'', nargs = NargsNone, required = True,
            default_value = NVal VNone, help_text = Some [], arg_type = Some (Ty TEmpty [])\<rparr>,
           \<lparr>option_strings = [''--c''], dest = ''c'', nargs = NargsOptional, required = False,
            default_value = NVal (VInt 1), help_text = Some (''Default: '' @ fmt (VInt 1)),
            arg_type = Some (Ty TEmpty [])\<rparr>,
           \<lparr>option_strings = [''--d''], dest = ''d'', nargs = NargsNone, required = True,
            default_value = NVal VNone, help_text = Some [], arg_type = Some (Ty TEmpty [])\<rparr>,
           \<lparr>option_strings = [''--e''], dest = ''e'', nargs = NargsOptional, required = False,
            default_value = NVal (VFloat (Float 1 1)),
            help_text = Some (''Default: '' @ fmt (VFloat (Float 1 1))),
            arg_type = Some (Ty TEmpty [])\<rparr>],
        subparsers = None\<rparr>])"
    by (simp add: builder_defs Let_def f_example_def)
next
  assume a: "p < length h \<and> set_parameter fmt p x h = Inr h' \<and> pdefault x = Some d"
  with set_parameter_flag [of fmt p x h h']
  show "help_text (last (actions (h' ! p))) =
          Some ((case pannotation x of Plain t \<Rightarrow> [] | Annotated t m \<Rightarrow> m @ '' '')
                @ ''Default: '' @ fmt d)"
    by (auto split: annotation.splits)
next
  assume a: "p < length h \<and> set_parameter fmt p x h = Inr h'
        \<and> (pkind x = KEYWORD_ONLY \<or> pkind x = POSITIONAL_OR_KEYWORD \<and> pdefault x \<noteq> None)"
  with set_parameter_flag [of fmt p x h h']
  show "option_strings (last (actions (h' ! p))) =
          [''--'' @ replace_char CHR ''_'' CHR ''-'' (pname x)]"
    by auto
qed

theorem kind_surface_mapping_witness:
  "(0::nat) < length (snd (ArgumentParser None []))
   \<and> set_parameter (\<lambda>v. ''1'') 0
        (Parameter ''my_flag'' KEYWORD_ONLY (Some (VInt 1)) (Annotated (Ty TInt []) ''count''))
        (snd (ArgumentParser None []))
      = Inr [\<lparr>description = None, defaults_entrypoint = None,
              actions = [\<lparr>option_strings = [''--my-flag''], dest = ''my_flag'',
                          nargs = NargsOptional, required = False,
                          default_value = NVal (VInt 1),
                          help_text = Some ''count Default: 1'',
                          arg_type = Some (Ty TInt [])\<rparr>],
              subparsers = None\<rparr>]
   \<and> pdefault (Parameter ''my_flag'' KEYWORD_ONLY (Some (VInt 1)) (Annotated (Ty TInt []) ''count''))
       = Some (VInt 1)
   \<and> pkind (Parameter ''my_flag'' KEYWORD_ONLY (Some (VInt 1)) (Annotated (Ty TInt []) ''count''))
       = KEYWORD_ONLY
   \<and> help_text (last (actions ([\<lparr>description = None, defaults_entrypoint = None,
              actions = [\<lparr>option_strings = [''--my-flag''], dest = ''my_flag'',
                          nargs = NargsOptional, required = False,
                          default_value = NVal (VInt 1),
                          help_text = Some ''count Default: 1'',
                          arg_type = Some (Ty TInt [])\<rparr>],
              subparsers = None\<rparr>] ! 0))) = Some ''count Default: 1''
   \<and> option_strings (last (actions ([\<lparr>description = None, defaults_entrypoint = None,
              actions = [\<lparr>option_strings = [''--my-flag''], dest = ''my_flag'',
                          nargs = NargsOptional, required = False,
                          default_value = NVal (VInt 1),
                          help_text = Some ''count Default: 1'',
                          arg_type = Some (Ty TInt [])\<rparr>],
              subparsers = None\<rparr>] ! 0))) = [''--my-flag'']"
proof -
  let ?x = "Parameter ''my_flag'' KEYWORD_ONLY (Some (VInt 1)) (Annotated (Ty TInt []) ''count'')"
  let ?h = "snd (ArgumentParser None [])"
  let ?h' = "[\<lparr>description = None, defaults_entrypoint = None,
              actions = [\<lparr>option_strings = [''--my-flag''], dest = ''my_flag'',
                          nargs = NargsOptional, required = False,
                          default_value = NVal (VInt 1),
                          help_text = Some ''count Default: 1'',
                          arg_type = Some (Ty TInt [])\<rparr>],
              subparsers = None\<rparr>]"
  have l: "(0::nat) < length ?h" by (simp add: ArgumentParser_def)
  have s: "set_parameter (\<lambda>v. ''1'') 0 ?x ?h = Inr ?h'"
    by (simp add: builder_defs Let_def)
  from l s kind_surface_mapping [of "\<lambda>v. ''1''" 0 ?h ?x ?h' "VInt 1"]
  show ?thesis by simp
qed

section \<open>Decorating and running\<close>

lemmas example_defs =
  f_example_def entrypoint_example_def foo_module_def variadic_example_def bar_module_def
  prog_entrypoint_def prog_foo_entrypoint_def prog_package_def empty_state_def


text \<open>
  C2 on the code: decorating \<^verbatim>\<open>entrypoint(a: int, /, b: str, c: bool = True, *, d: float)\<close>
  succeeds and gives the positional arguments \<^verbatim>\<open>a\<close> and \<^verbatim>\<open>b\<close> and the flags \<^verbatim>\<open>--c\<close> and
  \<^verbatim>\<open>--d\<close>; \<^verbatim>\<open>--c\<close> is a plain flag that takes at most one value. No option string of the
  parser is \<^verbatim>\<open>--no-c\<close> or starts with it, so the token \<^verbatim>\<open>--no-c\<close> of the argument list
  names no flag of this command line.
\<close>

theorem no_negation_flag:
  "fst (call fmt False foo_module entrypoint_example empty_state) = Inr entrypoint_example
   \<and> actions (parsers (snd (call fmt False foo_module entrypoint_example empty_state)) ! 0) =
      [\<lparr>option_strings = [], dest = ''a'', nargs = NargsNone, required = True,
        default_value = NVal VNone, help_text = Some [], arg_type = Some (Ty TInt [])\<rparr>,
       \<lparr>option_strings = [], dest = ''b'', nargs = NargsNone, required = True,
        default_value = NVal VNone, help_text = Some [], arg_type = Some (Ty TStr [])\<rparr>,
       \<lparr>option_strings = [''--c''], dest = ''c'', nargs = NargsOptional, required = False,
        default_value = NVal (VBool True),
        help_text = Some (''Default: '' @ fmt (VBool True)), arg_type = Some (Ty TBool [])\<rparr>,
       \<lparr>option_strings = [''--d''], dest = ''d'', nargs = NargsNone, required = True,
        default_value = NVal VNone, help_text = Some [], arg_type = Some (Ty TFloat [])\<rparr>]
   \<and> filter (\<lambda>s. take 6 s = ''--no-c'')
        (help_option_strings @ concat (map option_strings
           (actions (parsers (snd (call fmt False foo_module entrypoint_example empty_state)) ! 0))))
      = []"
  by (simp add: call_def builder_defs Let_def example_defs)

text \<open>A variadic parameter stops the set-up of the parameters with an exception.\<close>

lemma set_parameters_variadic:
  "\<exists>x\<in>set xs. pkind x = VAR_POSITIONAL \<or> pkind x = VAR_KEYWORD \<Longrightarrow>
   \<exists>e h'. set_parameters fmt p xs h = (Some e, h')"
proof (induction xs arbitrary: h)
  case Nil
  then show ?case by simp
next
  case (Cons x xs)
  show ?case
  proof (cases "set_parameter fmt p x h")
    case (Inl e)
    then show ?thesis by simp
  next
    case (Inr h1)
    then have "pkind x \<noteq> VAR_POSITIONAL \<and> pkind x \<noteq> VAR_KEYWORD"
      by (auto simp: set_parameter_def)
    with Cons.prems have "\<exists>y\<in>set xs. pkind y = VAR_POSITIONAL \<or> pkind y = VAR_KEYWORD"
      by auto
    from Cons.IH [OF this, of h1] Inr show ?thesis by simp
  qed
qed

text \<open>
  C5, as the code has it: decorating a function that declares \<^verbatim>\<open>*args\<close> or \<^verbatim>\<open>**kwargs\<close>
  raises an exception, whatever the rest of the signature, the module and the
  \<open>submodules\<close> setting are, so that no decorated function is returned; the \<^verbatim>\<open>cli\<close>
  attribute, which is attached before the modules are walked, stays on the function
  object.
\<close>

theorem decorate_variadic_fails:
  assumes "\<exists>x\<in>set (fparams f). pkind x = VAR_POSITIONAL \<or> pkind x = VAR_KEYWORD"
  shows "\<exists>e s'. call fmt sub m f s = (Inl e, s') \<and> cli s' f = Some (length (parsers s))"
proof -
  let ?root = "length (parsers s)"
  let ?h2 = "set_defaults ?root (EPrintHelp ?root)
               (snd (ArgumentParser (py_or (fdoc f) (mdoc m)) (parsers s)))"
  obtain p' stack' h' where v: "visit sub (fname f) ?root m (Some f) [] ?h2 = (p', stack', h')"
    by (cases "visit sub (fname f) ?root m (Some f) [] ?h2") auto
  from set_parameters_variadic [OF assms]
  obtain e h'' where "set_entrypoint fmt p' f h' = (Some e, h'')"
    unfolding set_entrypoint_def by blast
  with v have "call_loop fmt sub (fname f) [(?root, m, Some f)] ?h2 = (Some e, h'')"
    by simp
  then show ?thesis
    by (simp add: call_def ArgumentParser_def Let_def)
qed

theorem decorate_variadic_fails_witness:
  "(\<exists>x\<in>set (fparams variadic_example). pkind x = VAR_POSITIONAL \<or> pkind x = VAR_KEYWORD)
   \<and> (\<exists>e s'. call str_example False bar_module variadic_example empty_state = (Inl e, s')
          \<and> cli s' variadic_example = Some (length (parsers empty_state)))"
proof -
  have h: "\<exists>x\<in>set (fparams variadic_example). pkind x = VAR_POSITIONAL \<or> pkind x = VAR_KEYWORD"
    by (simp add: variadic_example_def)
  from h decorate_variadic_fails [OF h, of str_example False bar_module empty_state]
  show ?thesis by blast
qed

text \<open>
  C5 as stated fails: decorating \<^verbatim>\<open>def g(a: int, *args)\<close> raises \<^verbatim>\<open>RuntimeError\<close>, and
  afterwards the function object has a \<^verbatim>\<open>cli\<close> attribute whose parser is partly built:
  it has the argument \<^verbatim>\<open>a\<close> and \<^verbatim>\<open>g\<close> as its entrypoint.
\<close>

theorem failed_build_keeps_cli_counterexample:
  "fst (call str_example False bar_module variadic_example empty_state) = Inl RuntimeError
   \<and> cli (snd (call str_example False bar_module variadic_example empty_state)) variadic_example
       = Some 0
   \<and> parsers (snd (call str_example False bar_module variadic_example empty_state)) =
       [\<lparr>description = None, defaults_entrypoint = Some (EFunc variadic_example),
         actions = [\<lparr>option_strings = [], dest = ''a'', nargs = NargsNone, required = True,
                     default_value = NVal VNone, help_text = Some [],
                     arg_type = Some (Ty TInt [])\<rparr>],
         subparsers = None\<rparr>]"
  by (simp add: call_def builder_defs Let_def example_defs)

text \<open>
  C10: when the decorator returns, it returns the function it was given, and the only
  attribute of a function that it has changed is the \<^verbatim>\<open>cli\<close> attribute of that function,
  which is the new root parser.
\<close>

theorem call_returns_entrypoint:
  assumes "call fmt sub m f s = (Inr g, s')"
  shows "g = f \<and> cli s' = (cli s)(f \<mapsto> length (parsers s))"
  using assms
  by (auto simp: call_def ArgumentParser_def Let_def split: prod.splits option.splits)

theorem call_returns_entrypoint_witness:
  "call str_example False foo_module f_example empty_state
     = (Inr f_example, snd (call str_example False foo_module f_example empty_state))
   \<and> cli (snd (call str_example False foo_module f_example empty_state))
       = (cli empty_state)(f_example \<mapsto> length (parsers empty_state))"
proof -
  have "fst (call str_example False foo_module f_example empty_state) = Inr f_example"
    by (simp add: call_def builder_defs Let_def example_defs)
  then have c: "call str_example False foo_module f_example empty_state
     = (Inr f_example, snd (call str_example False foo_module f_example empty_state))"
    by (metis prod.collapse)
  from c call_returns_entrypoint [OF c] show ?thesis by blast
qed

text \<open>
  When every parameter name of the resolved entrypoint is a key of the parsed
  arguments, \<open>dispatch\<close> makes exactly one call: the positional arguments are the values
  of the positional-only parameters in declaration order, the keyword arguments those
  of the other parameters, and the result of a coroutine function goes through
  \<open>asyncio_run\<close>.
\<close>

lemma collect_partition:
  "\<forall>x\<in>set xs. map_of ns (pname x) \<noteq> None \<Longrightarrow>
   collect ns xs args kwargs =
     Inr (args @ map (\<lambda>x. the (map_of ns (pname x))) (filter (\<lambda>x. pkind x = POSITIONAL_ONLY) xs),
          kwargs @ map (\<lambda>x. (pname x, the (map_of ns (pname x))))
                     (filter (\<lambda>x. pkind x \<noteq> POSITIONAL_ONLY) xs))"
  by (induction xs arbitrary: args kwargs) auto

lemma dispatch_partition:
  assumes "map_of ns ''entrypoint'' = Some (NEntry e)"
    and "\<forall>x\<in>set (signature e). map_of ns (pname x) \<noteq> None"
  shows "dispatch invoke asyncio_run ns =
     ([Call e (map (\<lambda>x. the (map_of ns (pname x)))
                 (filter (\<lambda>x. pkind x = POSITIONAL_ONLY) (signature e)))
              (map (\<lambda>x. (pname x, the (map_of ns (pname x))))
                 (filter (\<lambda>x. pkind x \<noteq> POSITIONAL_ONLY) (signature e)))],
      case invoke (Call e (map (\<lambda>x. the (map_of ns (pname x)))
                 (filter (\<lambda>x. pkind x = POSITIONAL_ONLY) (signature e)))
              (map (\<lambda>x. (pname x, the (map_of ns (pname x))))
                 (filter (\<lambda>x. pkind x \<noteq> POSITIONAL_ONLY) (signature e)))) of
        Inl err \<Rightarrow> Inl err
      | Inr result \<Rightarrow> if iscoroutinefunction e then asyncio_run result else Inr result)"
  using assms collect_partition [of "signature e" ns "[]" "[]"]
  by (simp add: dispatch_def)

text \<open>
  C6 on the code, when the resolved entrypoint is the help-printing fallback: the
  signature of \<^verbatim>\<open>print_help\<close> has the parameter \<^verbatim>\<open>file\<close>, which is no key of the parsed
  arguments, so \<^verbatim>\<open>run\<close> raises \<^verbatim>\<open>KeyError\<close> and calls nothing.
\<close>

theorem run_print_help_no_call:
  assumes "parse_args h p args = Inr ns"
    and "map_of ns ''entrypoint'' = Some (NEntry (EPrintHelp q))"
    and "map_of ns ''file'' = None"
  shows "run parse_args invoke asyncio_run argv h p (Some args) = ([], Inl KeyError)"
  using assms by (simp add: run_def dispatch_def)

theorem run_print_help_no_call_witness:
  "(\<lambda>h p args. Inr (initial_namespace h p))
      (parsers (snd (call str_example True prog_package prog_entrypoint empty_state))) 0 []
     = Inr [(''entrypoint'', NEntry (EPrintHelp 0))]
   \<and> map_of [(''entrypoint'', NEntry (EPrintHelp 0))] ''entrypoint'' = Some (NEntry (EPrintHelp 0))
   \<and> map_of [(''entrypoint'', NEntry (EPrintHelp 0))] ''file'' = None
   \<and> run (\<lambda>h p args. Inr (initial_namespace h p)) (\<lambda>c. Inr VNone) Inr [''prog'']
         (parsers (snd (call str_example True prog_package prog_entrypoint empty_state))) 0
         (Some [])
       = ([], Inl KeyError)"
proof -
  let ?h = "parsers (snd (call str_example True prog_package prog_entrypoint empty_state))"
  let ?pa = "\<lambda>(h::heap) (p::nat) (args::string list).
               (Inr (initial_namespace h p) :: error + namespace)"
  have a: "?pa ?h 0 [] = Inr [(''entrypoint'', NEntry (EPrintHelp 0))]"
    by (simp add: call_def builder_defs Let_def example_defs initial_namespace_def)
  have b: "map_of [(''entrypoint'', NEntry (EPrintHelp 0))] ''entrypoint''
             = Some (NEntry (EPrintHelp 0))"
    by simp
  have c: "map_of [(''entrypoint'', NEntry (EPrintHelp 0))] ''file'' = None"
    by simp
  from a b c run_print_help_no_call [of ?pa ?h 0 "[]" _ 0 "\<lambda>c. Inr VNone" Inr "[''prog'']", OF a b c]
  show ?thesis by blast
qed

text \<open>
  C7 on the code: the package \<^verbatim>\<open>prog\<close> is decorated with \<^verbatim>\<open>submodules=True\<close> and run
  without argument. The root parser keeps \<^verbatim>\<open>print_help\<close> as its entrypoint and has no
  argument, \<^verbatim>\<open>parse_args([])\<close> returns its defaults, and \<^verbatim>\<open>run\<close> raises \<^verbatim>\<open>KeyError\<close> without
  calling \<^verbatim>\<open>print_help\<close>.
\<close>

theorem decorated_package_no_args_raises:
  "fst (call fmt True prog_package prog_entrypoint empty_state) = Inr prog_entrypoint
   \<and> cli (snd (call fmt True prog_package prog_entrypoint empty_state)) prog_entrypoint = Some 0
   \<and> initial_namespace (parsers (snd (call fmt True prog_package prog_entrypoint empty_state))) 0
       = [(''entrypoint'', NEntry (EPrintHelp 0))]
   \<and> dispatch invoke asyncio_run
        (initial_namespace (parsers (snd (call fmt True prog_package prog_entrypoint empty_state))) 0)
       = ([], Inl KeyError)"
  by (simp add: call_def builder_defs Let_def example_defs initial_namespace_def dispatch_def)

section \<open>The documentation of the command tree\<close>

lemma nth_upd: "(xs[i := x]) ! j = (if i = j \<and> i < length xs then x else xs ! j)"
  by (cases "i < length xs") (auto simp: nth_list_update list_update_beyond)

lemma set_defaults_shape:
  "length (set_defaults p e h) = length h"
  "description (set_defaults p e h ! q) = description (h ! q)"
  "subparsers (set_defaults p e h ! q) = subparsers (h ! q)"
  by (simp_all add: set_defaults_def nth_upd)

lemma set_parameter_shape:
  assumes "set_parameter fmt p x h = Inr h'"
  shows "length h' = length h \<and> description (h' ! q) = description (h ! q)
         \<and> subparsers (h' ! q) = subparsers (h ! q)"
  using assms
  by (auto simp: set_parameter_def Let_def nth_upd split: sum.splits prod.splits)

lemma set_parameters_shape:
  "set_parameters fmt p xs h = (r, h') \<Longrightarrow>
   length h' = length h \<and> description (h' ! q) = description (h ! q)
   \<and> subparsers (h' ! q) = subparsers (h ! q)"
proof (induction xs arbitrary: h)
  case Nil
  then show ?case by simp
next
  case (Cons x xs)
  show ?case
  proof (cases "set_parameter fmt p x h")
    case (Inl e)
    with Cons.prems show ?thesis by simp
  next
    case (Inr h1)
    with Cons.prems have "set_parameters fmt p xs h1 = (r, h')" by simp
    from Cons.IH [OF this] set_parameter_shape [OF Inr, of q] show ?thesis by simp
  qed
qed

lemma set_entrypoint_shape:
  "set_entrypoint fmt p f h = (r, h') \<Longrightarrow>
   length h' = length h \<and> description (h' ! q) = description (h ! q)
   \<and> subparsers (h' ! q) = subparsers (h ! q)"
  unfolding set_entrypoint_def
  by (drule set_parameters_shape [where q = q]) (simp add: set_defaults_shape)

lemma add_parser_facts:
  assumes "add_parser p name hlp d h = (q, h')" and "p < length h"
  shows "q = length h" and "length h' = Suc (length h)" and "description (h' ! q) = d"
    and "subparsers (h' ! p) =
           Some ((case subparsers (h ! p) of None \<Rightarrow> [] | Some cs \<Rightarrow> cs) @ [Choice name hlp q])"
    and "\<And>r. r < length h \<Longrightarrow> description (h' ! r) = description (h ! r)"
    and "\<And>r. r < length h \<Longrightarrow> r \<noteq> p \<Longrightarrow> subparsers (h' ! r) = subparsers (h ! r)"
  using assms
  by (auto simp: add_parser_def ArgumentParser_def nth_upd nth_append)


lemma add_submodules_facts:
  assumes "add_submodules dn p subs stack h = (stack', h')"
    and "p < length h" and "subparsers (h ! p) = Some cs0"
  shows "\<exists>cs. subparsers (h' ! p) = Some (cs0 @ cs)
           \<and> stack' = rev (map2 (\<lambda>x c. (cparser c, snd x, map_of (mattrs (snd x)) dn)) subs cs)
                       @ stack
           \<and> list_all2 (\<lambda>x c. cname c = fst x \<and> length h \<le> cparser c \<and> cparser c < length h'
                              \<and> description (h' ! cparser c) = mdoc (snd x)) subs cs
           \<and> distinct (map cparser cs)
           \<and> length h \<le> length h'
           \<and> (\<forall>r<length h. description (h' ! r) = description (h ! r))
           \<and> (\<forall>r<length h. r \<noteq> p \<longrightarrow> subparsers (h' ! r) = subparsers (h ! r))"
  using assms
proof (induction subs arbitrary: stack h cs0)
  case Nil
  then show ?case by simp
next
  case (Cons a subs)
  obtain name sm where a: "a = (name, sm)" by (cases a)
  define hlp :: "string option option"
    where "hlp = (if name \<noteq> [] \<and> hd name = CHR ''_'' then None else Some (Some []))"
  obtain q h1 where ap: "add_parser p name hlp (mdoc sm) h = (q, h1)"
    by (cases "add_parser p name hlp (mdoc sm) h") auto
  note f = add_parser_facts [OF ap Cons.prems(2)]
  let ?h2 = "set_defaults q (EPrintHelp q) h1"
  from Cons.prems(1) a ap
  have rec: "add_submodules dn p subs ((q, sm, map_of (mattrs sm) dn) # stack) ?h2 = (stack', h')"
    by (auto simp: hlp_def Let_def split: if_splits)
  have p2: "p < length ?h2" using f(2) Cons.prems(2) by (simp add: set_defaults_shape)
  have s2: "subparsers (?h2 ! p) = Some ((cs0 @ [Choice name hlp q]))"
    using f(4) Cons.prems(3) by (simp add: set_defaults_shape)
  from Cons.IH [OF rec p2 s2]
  obtain cs where cs: "subparsers (h' ! p) = Some ((cs0 @ [Choice name hlp q]) @ cs)"
    and st: "stack' = rev (map2 (\<lambda>x c. (cparser c, snd x, map_of (mattrs (snd x)) dn)) subs cs)
                       @ (q, sm, map_of (mattrs sm) dn) # stack"
    and all: "list_all2 (\<lambda>x c. cname c = fst x \<and> length ?h2 \<le> cparser c \<and> cparser c < length h'
                              \<and> description (h' ! cparser c) = mdoc (snd x)) subs cs"
    and dist: "distinct (map cparser cs)"
    and len: "length ?h2 \<le> length h'"
    and desc: "\<forall>r<length ?h2. description (h' ! r) = description (?h2 ! r)"
    and subp: "\<forall>r<length ?h2. r \<noteq> p \<longrightarrow> subparsers (h' ! r) = subparsers (?h2 ! r)"
    by blast
  have l2: "length ?h2 = Suc (length h)" using f(2) by (simp add: set_defaults_shape)
  have qd: "description (h' ! q) = mdoc sm"
    using desc f(1) f(3) l2 by (simp add: set_defaults_shape)
  have fresh: "q \<notin> cparser ` set cs"
  proof
    assume "q \<in> cparser ` set cs"
    then obtain c where "c \<in> set cs" "cparser c = q" by auto
    with all have "length ?h2 \<le> q" by (auto simp: list_all2_conv_all_nth in_set_conv_nth)
    with l2 f(1) show False by simp
  qed
  have all': "list_all2 (\<lambda>x c. cname c = fst x \<and> length h \<le> cparser c \<and> cparser c < length h'
                              \<and> description (h' ! cparser c) = mdoc (snd x))
                (a # subs) (Choice name hlp q # cs)"
  proof -
    have "list_all2 (\<lambda>x c. cname c = fst x \<and> length h \<le> cparser c \<and> cparser c < length h'
                              \<and> description (h' ! cparser c) = mdoc (snd x)) subs cs"
      by (rule list_all2_mono [OF all]) (use l2 in auto)
    moreover have "q < length h'" using len l2 f(1) by simp
    ultimately show ?thesis using a qd f(1) by simp
  qed
  have "subparsers (h' ! p) = Some (cs0 @ (Choice name hlp q # cs))" using cs by simp
  moreover have "stack' = rev (map2 (\<lambda>x c. (cparser c, snd x, map_of (mattrs (snd x)) dn))
                                 (a # subs) (Choice name hlp q # cs)) @ stack"
    using st a by simp
  moreover have "distinct (map cparser (Choice name hlp q # cs))" using dist fresh by simp
  moreover have "length h \<le> length h'" using len l2 by simp
  moreover have "\<forall>r<length h. description (h' ! r) = description (h ! r)"
    using desc l2 f(5) by (simp add: set_defaults_shape)
  moreover have "\<forall>r<length h. r \<noteq> p \<longrightarrow> subparsers (h' ! r) = subparsers (h ! r)"
    using subp l2 f(6) by (simp add: set_defaults_shape)
  ultimately show ?case using all' by blast
qed


lemma visit_plain:
  assumes "visit sub dn p m e stack h = (p', stack', h')" and "\<not> (sub \<and> mname m = mpackage m)"
  shows "p' = p \<and> stack' = stack \<and> h' = h"
  using assms by (auto simp: visit_def)

lemma visit_package:
  assumes "visit sub dn p m e stack h = (p', stack', h')" and "sub \<and> mname m = mpackage m"
    and "p < length h"
  shows "\<exists>cs. subparsers (h' ! p) =
                 Some (cs @ (case e of None \<Rightarrow> []
                             | Some g \<Rightarrow> [Choice ''.'' (Some (py_or (fdoc g) (mdoc m))) p']))
           \<and> stack' = rev (map2 (\<lambda>x c. (cparser c, snd x, map_of (mattrs (snd x)) dn))
                              (msubmodules m) cs) @ stack
           \<and> list_all2 (\<lambda>x c. cname c = fst x \<and> length h \<le> cparser c \<and> cparser c < length h'
                              \<and> description (h' ! cparser c) = mdoc (snd x)) (msubmodules m) cs
           \<and> distinct (map cparser cs)
           \<and> length h \<le> length h'
           \<and> p' < length h'
           \<and> (e \<noteq> None \<longrightarrow> description (h' ! p') = None)
           \<and> (\<forall>r<length h. description (h' ! r) = description (h ! r))
           \<and> (\<forall>r<length h. r \<noteq> p \<longrightarrow> subparsers (h' ! r) = subparsers (h ! r))"
proof -
  let ?h1 = "add_subparsers p h"
  obtain stack1 h2 where as: "add_submodules dn p (msubmodules m) stack ?h1 = (stack1, h2)"
    by (cases "add_submodules dn p (msubmodules m) stack ?h1") auto
  have l1: "length ?h1 = length h" by (simp add: add_subparsers_def)
  have p1: "p < length ?h1" using assms(3) l1 by simp
  have s1: "subparsers (?h1 ! p) = Some []" using assms(3) by (simp add: add_subparsers_def)
  have d1: "description (?h1 ! r) = description (h ! r)" for r
    by (simp add: add_subparsers_def nth_upd)
  have u1: "r \<noteq> p \<Longrightarrow> subparsers (?h1 ! r) = subparsers (h ! r)" for r
    by (simp add: add_subparsers_def nth_upd)
  from add_submodules_facts [OF as p1 s1]
  obtain cs where cs: "subparsers (h2 ! p) = Some cs"
    and st: "stack1 = rev (map2 (\<lambda>x c. (cparser c, snd x, map_of (mattrs (snd x)) dn))
                              (msubmodules m) cs) @ stack"
    and all: "list_all2 (\<lambda>x c. cname c = fst x \<and> length h \<le> cparser c \<and> cparser c < length h2
                              \<and> description (h2 ! cparser c) = mdoc (snd x)) (msubmodules m) cs"
    and dist: "distinct (map cparser cs)"
    and len: "length h \<le> length h2"
    and desc: "\<forall>r<length h. description (h2 ! r) = description (h ! r)"
    and subp: "\<forall>r<length h. r \<noteq> p \<longrightarrow> subparsers (h2 ! r) = subparsers (h ! r)"
    using l1 d1 u1 by auto
  show ?thesis
  proof (cases e)
    case None
    with assms(1,2) as have "p' = p" "stack' = stack1" "h' = h2"
      by (auto simp: visit_def Let_def)
    with None cs st all dist len desc subp assms(3) show ?thesis by auto
  next
    case (Some g)
    obtain q h3 where ap: "add_parser p ''.'' (Some (py_or (fdoc g) (mdoc m))) None h2 = (q, h3)"
      by (cases "add_parser p ''.'' (Some (py_or (fdoc g) (mdoc m))) None h2") auto
    with Some assms(1,2) as have eq: "p' = q" "stack' = stack1" "h' = h3"
      by (auto simp: visit_def Let_def)
    have p2: "p < length h2" using assms(3) len by simp
    note f = add_parser_facts [OF ap p2]
    have all': "list_all2 (\<lambda>x c. cname c = fst x \<and> length h \<le> cparser c \<and> cparser c < length h3
                              \<and> description (h3 ! cparser c) = mdoc (snd x)) (msubmodules m) cs"
      by (rule list_all2_mono [OF all]) (use f(2) f(5) in auto)
    have "subparsers (h3 ! p) = Some (cs @ [Choice ''.'' (Some (py_or (fdoc g) (mdoc m))) q])"
      using f(4) cs by simp
    moreover have "q < length h3" using f(1,2) by simp
    moreover have "description (h3 ! q) = None" using f(3) by simp
    moreover have "length h \<le> length h3" using len f(2) by simp
    moreover have "\<forall>r<length h. description (h3 ! r) = description (h ! r)"
      using desc f(5) len by auto
    moreover have "\<forall>r<length h. r \<noteq> p \<longrightarrow> subparsers (h3 ! r) = subparsers (h ! r)"
      using subp f(6) len by auto
    ultimately show ?thesis using Some eq st all' dist by auto
  qed
qed


lemma described_unfold:
  "described sub dn h p m e =
     (if sub \<and> mname m = mpackage m then
        (case subparsers (h ! p) of
           None \<Rightarrow> False
         | Some cs \<Rightarrow>
             list_all2
               (\<lambda>x c. cname c = fst x \<and> description (h ! cparser c) = mdoc (snd x)
                      \<and> described sub dn h (cparser c) (snd x) (map_of (mattrs (snd x)) dn))
               (msubmodules m) (take (length (msubmodules m)) cs)
             \<and> (case e of
                  None \<Rightarrow> drop (length (msubmodules m)) cs = []
                | Some g \<Rightarrow>
                    (case drop (length (msubmodules m)) cs of
                       [c] \<Rightarrow> cname c = ''.'' \<and> chelp c = Some (py_or (fdoc g) (mdoc m))
                               \<and> description (h ! cparser c) = None
                     | _ \<Rightarrow> False)))
      else True)"
  by (cases m) (hypsubst, simp cong: option.case_cong list.case_cong if_cong)

lemma map_fst_map2:
  "length xs = length cs \<Longrightarrow>
   map fst (map2 (\<lambda>x c. (cparser c, k x)) xs cs) = map cparser cs"
  by (induction xs cs rule: list_induct2) auto

lemma map2_nth_mem:
  "length xs = length cs \<Longrightarrow> i < length cs \<Longrightarrow> F (xs ! i) (cs ! i) \<in> set (map2 F xs cs)"
  by (force simp: in_set_conv_nth)

lemma call_loop_step:
  assumes v: "visit sub dn p m e stack h = (p', stack', h1)"
    and shape: "length h2 = length h1"
       "\<And>q. description (h2 ! q) = description (h1 ! q)"
       "\<And>q. subparsers (h2 ! q) = subparsers (h1 ! q)"
    and pre: "\<forall>x\<in>set ((p, m, e) # stack). fst x < length h"
       "distinct (map fst ((p, m, e) # stack))"
    and IH: "\<forall>x\<in>set stack'. fst x < length h2 \<Longrightarrow> distinct (map fst stack') \<Longrightarrow>
         length h2 \<le> length h'
         \<and> (\<forall>r<length h2. description (h' ! r) = description (h2 ! r))
         \<and> (\<forall>r<length h2. r \<notin> fst ` set stack' \<longrightarrow> subparsers (h' ! r) = subparsers (h2 ! r))
         \<and> (\<forall>x\<in>set stack'. described sub dn h' (fst x) (fst (snd x)) (snd (snd x)))"
  shows "length h \<le> length h'
         \<and> (\<forall>r<length h. description (h' ! r) = description (h ! r))
         \<and> (\<forall>r<length h. r \<notin> fst ` set ((p, m, e) # stack) \<longrightarrow>
               subparsers (h' ! r) = subparsers (h ! r))
         \<and> (\<forall>x\<in>set ((p, m, e) # stack). described sub dn h' (fst x) (fst (snd x)) (snd (snd x)))"
proof (cases "sub \<and> mname m = mpackage m")
  case False
  from visit_plain [OF v False] have eq: "p' = p" "stack' = stack" "h1 = h" by auto
  have "\<forall>x\<in>set stack'. fst x < length h2" using pre(1) eq shape(1) by simp
  moreover have "distinct (map fst stack')" using pre(2) eq by simp
  ultimately have ih: "length h2 \<le> length h'"
    "\<forall>r<length h2. description (h' ! r) = description (h2 ! r)"
    "\<forall>r<length h2. r \<notin> fst ` set stack' \<longrightarrow> subparsers (h' ! r) = subparsers (h2 ! r)"
    "\<forall>x\<in>set stack'. described sub dn h' (fst x) (fst (snd x)) (snd (snd x))"
    using IH by blast+
  have "described sub dn h' p m e" using False by (subst described_unfold) auto
  with ih eq shape show ?thesis by auto
next
  case True
  have pl: "p < length h" using pre(1) by simp
  from visit_package [OF v True pl]
  obtain cs where sp: "subparsers (h1 ! p) =
                 Some (cs @ (case e of None \<Rightarrow> []
                             | Some g \<Rightarrow> [Choice ''.'' (Some (py_or (fdoc g) (mdoc m))) p']))"
    and st: "stack' = rev (map2 (\<lambda>x c. (cparser c, snd x, map_of (mattrs (snd x)) dn))
                              (msubmodules m) cs) @ stack"
    and all: "list_all2 (\<lambda>x c. cname c = fst x \<and> length h \<le> cparser c \<and> cparser c < length h1
                              \<and> description (h1 ! cparser c) = mdoc (snd x)) (msubmodules m) cs"
    and dist: "distinct (map cparser cs)"
    and len: "length h \<le> length h1"
    and p'l: "p' < length h1"
    and dot: "e \<noteq> None \<longrightarrow> description (h1 ! p') = None"
    and desc: "\<forall>r<length h. description (h1 ! r) = description (h ! r)"
    and subp: "\<forall>r<length h. r \<noteq> p \<longrightarrow> subparsers (h1 ! r) = subparsers (h ! r)"
    by blast
  have lcs: "length cs = length (msubmodules m)" using all by (simp add: list_all2_lengthD)
  have ids: "map fst stack' = rev (map cparser cs) @ map fst stack"
    using st lcs map_fst_map2 [of "msubmodules m" cs "\<lambda>x. (snd x, map_of (mattrs (snd x)) dn)"]
    by (simp add: rev_map [symmetric])
  have cs_bounds: "\<And>c. c \<in> set cs \<Longrightarrow> length h \<le> cparser c \<and> cparser c < length h1"
    using all by (auto simp: list_all2_conv_all_nth in_set_conv_nth)
  have rest_bounds: "\<And>x. x \<in> set stack \<Longrightarrow> fst x < length h" using pre(1) by simp
  have A: "\<forall>x\<in>set stack'. fst x < length h2"
  proof
    fix x assume "x \<in> set stack'"
    then have "fst x \<in> set (map fst stack')" by simp
    then have "fst x \<in> cparser ` set cs \<or> fst x \<in> fst ` set stack" unfolding ids by auto
    then show "fst x < length h2" using cs_bounds rest_bounds len shape(1) by force
  qed
  have B: "distinct (map fst stack')"
    unfolding ids using dist pre(2) cs_bounds rest_bounds by force
  from IH [OF A B] have ih: "length h2 \<le> length h'"
    "\<forall>r<length h2. description (h' ! r) = description (h2 ! r)"
    "\<forall>r<length h2. r \<notin> fst ` set stack' \<longrightarrow> subparsers (h' ! r) = subparsers (h2 ! r)"
    "\<forall>x\<in>set stack'. described sub dn h' (fst x) (fst (snd x)) (snd (snd x))"
    by blast+
  have p_out: "p \<notin> fst ` set stack'"
  proof
    assume "p \<in> fst ` set stack'"
    then have "p \<in> set (map fst stack')" by simp
    then have "p \<in> cparser ` set cs \<or> p \<in> fst ` set stack" unfolding ids by auto
    then show False using cs_bounds pl pre(2) by force
  qed
  have sp': "subparsers (h' ! p) =
                 Some (cs @ (case e of None \<Rightarrow> []
                             | Some g \<Rightarrow> [Choice ''.'' (Some (py_or (fdoc g) (mdoc m))) p']))"
    using ih(3) p_out pl len shape(1) shape(3) [of p] sp by simp
  have children: "list_all2
               (\<lambda>x c. cname c = fst x \<and> description (h' ! cparser c) = mdoc (snd x)
                      \<and> described sub dn h' (cparser c) (snd x) (map_of (mattrs (snd x)) dn))
               (msubmodules m) cs"
    unfolding list_all2_conv_all_nth
  proof (intro conjI allI impI)
    show "length (msubmodules m) = length cs" using lcs by simp
  next
    fix i assume i: "i < length (msubmodules m)"
    with all show "cname (cs ! i) = fst (msubmodules m ! i)"
      by (simp add: list_all2_conv_all_nth)
  next
    fix i assume i: "i < length (msubmodules m)"
    with all have "cparser (cs ! i) < length h1"
      "description (h1 ! cparser (cs ! i)) = mdoc (snd (msubmodules m ! i))"
      by (simp_all add: list_all2_conv_all_nth)
    then show "description (h' ! cparser (cs ! i)) = mdoc (snd (msubmodules m ! i))"
      using ih(2) shape(1) shape(2) by simp
  next
    fix i assume i: "i < length (msubmodules m)"
    then have "(cparser (cs ! i), snd (msubmodules m ! i),
                map_of (mattrs (snd (msubmodules m ! i))) dn) \<in> set stack'"
      unfolding st
      using map2_nth_mem [of "msubmodules m" cs i
              "\<lambda>x c. (cparser c, snd x, map_of (mattrs (snd x)) dn)"] lcs
      by simp
    with ih(4) show "described sub dn h' (cparser (cs ! i)) (snd (msubmodules m ! i))
                       (map_of (mattrs (snd (msubmodules m ! i))) dn)"
      by force
  qed
  have dotd: "e \<noteq> None \<Longrightarrow> description (h' ! p') = None"
    using dot p'l ih(2) shape(1) shape(2) by simp
  have dp: "described sub dn h' p m e"
    using True sp' children lcs dotd
    by (subst described_unfold) (auto split: option.splits)
  have "length h \<le> length h'" using len shape(1) ih(1) by simp
  moreover have "\<forall>r<length h. description (h' ! r) = description (h ! r)"
    using desc shape(1) shape(2) ih(2) len by simp
  moreover have "\<forall>r<length h. r \<notin> fst ` set ((p, m, e) # stack) \<longrightarrow>
               subparsers (h' ! r) = subparsers (h ! r)"
  proof (intro allI impI)
    fix r assume r: "r < length h" "r \<notin> fst ` set ((p, m, e) # stack)"
    have "r \<notin> fst ` set stack'"
    proof
      assume "r \<in> fst ` set stack'"
      then have "r \<in> set (map fst stack')" by simp
      then have "r \<in> cparser ` set cs \<or> r \<in> fst ` set stack" unfolding ids by auto
      then show False using cs_bounds r by force
    qed
    then have "subparsers (h' ! r) = subparsers (h2 ! r)" using ih(3) r(1) len shape(1) by simp
    also have "\<dots> = subparsers (h1 ! r)" by (rule shape(3))
    also have "\<dots> = subparsers (h ! r)" using subp r by simp
    finally show "subparsers (h' ! r) = subparsers (h ! r)" .
  qed
  moreover have "\<forall>x\<in>set ((p, m, e) # stack).
                   described sub dn h' (fst x) (fst (snd x)) (snd (snd x))"
    using dp ih(4) st by auto
  ultimately show ?thesis by blast
qed



lemma call_loop_described:
  "call_loop fmt sub dn stack h = (None, h') \<Longrightarrow>
   \<forall>x\<in>set stack. fst x < length h \<Longrightarrow> distinct (map fst stack) \<Longrightarrow>
   length h \<le> length h'
   \<and> (\<forall>r<length h. description (h' ! r) = description (h ! r))
   \<and> (\<forall>r<length h. r \<notin> fst ` set stack \<longrightarrow> subparsers (h' ! r) = subparsers (h ! r))
   \<and> (\<forall>x\<in>set stack. described sub dn h' (fst x) (fst (snd x)) (snd (snd x)))"
proof (induction fmt sub dn stack h rule: call_loop.induct)
  case (1 fmt sub dn h)
  then show ?case by simp
next
  case (2 fmt sub dn p m e stack h)
  obtain p' stack' h1 where v: "visit sub dn p m e stack h = (p', stack', h1)"
    by (cases "visit sub dn p m e stack h") auto
  show ?case
  proof (cases e)
    case None
    with "2.prems"(1) v have run: "call_loop fmt sub dn stack' h1 = (None, h')" by simp
    show ?thesis
    proof (rule call_loop_step [OF v _ _ _ "2.prems"(2) "2.prems"(3), of h1])
      assume "\<forall>x\<in>set stack'. fst x < length h1" "distinct (map fst stack')"
      with "2.IH"(1) [OF v [symmetric] refl None run]
      show "length h1 \<le> length h'
         \<and> (\<forall>r<length h1. description (h' ! r) = description (h1 ! r))
         \<and> (\<forall>r<length h1. r \<notin> fst ` set stack' \<longrightarrow> subparsers (h' ! r) = subparsers (h1 ! r))
         \<and> (\<forall>x\<in>set stack'. described sub dn h' (fst x) (fst (snd x)) (snd (snd x)))"
        by blast
    qed simp_all
  next
    case (Some g)
    obtain r h2 where se: "set_entrypoint fmt p' g h1 = (r, h2)"
      by (cases "set_entrypoint fmt p' g h1") auto
    with "2.prems"(1) v Some have r: "r = None" and run: "call_loop fmt sub dn stack' h2 = (None, h')"
      by (auto split: option.splits)
    note sh = set_entrypoint_shape [OF se]
    show ?thesis
    proof (rule call_loop_step [OF v _ _ _ "2.prems"(2) "2.prems"(3), of h2])
      assume "\<forall>x\<in>set stack'. fst x < length h2" "distinct (map fst stack')"
      with "2.IH"(2) [OF v [symmetric] refl Some se [unfolded r, symmetric] refl run]
      show "length h2 \<le> length h'
         \<and> (\<forall>r<length h2. description (h' ! r) = description (h2 ! r))
         \<and> (\<forall>r<length h2. r \<notin> fst ` set stack' \<longrightarrow> subparsers (h' ! r) = subparsers (h2 ! r))
         \<and> (\<forall>x\<in>set stack'. described sub dn h' (fst x) (fst (snd x)) (snd (snd x)))"
        by blast
    qed (use sh in simp_all)
  qed
qed


text \<open>
  C8, as the code has it: the description of the root node is the documentation of the
  decorated entrypoint, or else of its module; every submodule node, at every depth,
  has the documentation of the submodule as its description, whatever the
  documentation of its entrypoint; the subcommand \<^verbatim>\<open>.\<close> of a package has the
  documentation of the entrypoint of the package, or else of the package, as its help.
\<close>

theorem node_documentation:
  assumes "call fmt sub m f s = (Inr g, s')"
  shows "description (parsers s' ! length (parsers s)) = py_or (fdoc f) (mdoc m)
         \<and> described sub (fname f) (parsers s') (length (parsers s)) m (Some f)"
proof -
  let ?root = "length (parsers s)"
  let ?h1 = "snd (ArgumentParser (py_or (fdoc f) (mdoc m)) (parsers s))"
  let ?h2 = "set_defaults ?root (EPrintHelp ?root) ?h1"
  from assms have run: "call_loop fmt sub (fname f) [(?root, m, Some f)] ?h2 = (None, parsers s')"
    by (auto simp: call_def ArgumentParser_def Let_def split: prod.splits option.splits)
  have l: "?root < length ?h2" by (simp add: set_defaults_shape ArgumentParser_def)
  have d: "description (?h2 ! ?root) = py_or (fdoc f) (mdoc m)"
    by (simp add: set_defaults_shape ArgumentParser_def)
  from call_loop_described [OF run] l d show ?thesis by simp
qed

theorem node_documentation_witness:
  "call str_example True prog_package prog_entrypoint empty_state
     = (Inr prog_entrypoint, snd (call str_example True prog_package prog_entrypoint empty_state))
   \<and> description (parsers (snd (call str_example True prog_package prog_entrypoint empty_state))
                    ! length (parsers empty_state))
       = py_or (fdoc prog_entrypoint) (mdoc prog_package)
   \<and> described True (fname prog_entrypoint)
        (parsers (snd (call str_example True prog_package prog_entrypoint empty_state)))
        (length (parsers empty_state)) prog_package (Some prog_entrypoint)"
proof -
  have "fst (call str_example True prog_package prog_entrypoint empty_state) = Inr prog_entrypoint"
    by (simp add: call_def builder_defs Let_def example_defs)
  then have c: "call str_example True prog_package prog_entrypoint empty_state
     = (Inr prog_entrypoint, snd (call str_example True prog_package prog_entrypoint empty_state))"
    by (metis prod.collapse)
  from c node_documentation [OF c] show ?thesis by blast
qed

text \<open>
  C8 as stated fails on a submodule node: in the package \<^verbatim>\<open>prog\<close> the subcommand \<^verbatim>\<open>foo\<close>
  is bound to the entrypoint of \<^verbatim>\<open>prog.foo\<close>, whose documentation is \<^verbatim>\<open>E\<close>, and its
  description is the documentation \<^verbatim>\<open>M\<close> of the module.
\<close>

theorem submodule_description_counterexample:
  "subparsers (parsers (snd (call str_example True prog_package prog_entrypoint empty_state)) ! 0)
     = Some [Choice ''foo'' (Some (Some [])) 1, Choice ''.'' (Some (Some ''P'')) 2]
   \<and> defaults_entrypoint
        (parsers (snd (call str_example True prog_package prog_entrypoint empty_state)) ! 1)
       = Some (EFunc prog_foo_entrypoint)
   \<and> fdoc prog_foo_entrypoint = Some ''E''
   \<and> description
        (parsers (snd (call str_example True prog_package prog_entrypoint empty_state)) ! 1)
       = Some ''M''
   \<and> description
        (parsers (snd (call str_example True prog_package prog_entrypoint empty_state)) ! 1)
       \<noteq> py_or (fdoc prog_foo_entrypoint) (Some ''M'')"
  by (simp add: call_def builder_defs Let_def example_defs)


end
